theory Spec2Isabelle
  imports Main "HOL-Library.Word"
begin

unbundle bit_operations_syntax

section \<open>Values\<close>

text \<open>
  A JavaScript string is a sequence of UTF-16 code units; \<open>s.length\<close> and \<open>s[i]\<close> count and
  read code units.  A \<open>Buffer\<close> is a sequence of bytes.  Numbers that the library handles are
  lengths, offsets, counters and mode bits: integer-valued doubles, modelled as \<open>int\<close>; a
  property that may be \<open>undefined\<close> is an \<open>int option\<close>.
\<close>

type_synonym jsstring = "nat list"
type_synonym byte = "8 word"
type_synonym buffer = "byte list"

definition ascii :: "string \<Rightarrow> jsstring" where
  "ascii s = map of_char s"

datatype error =
    EmptyMetadataPath
  | AbsolutePath
  | InvalidRelativePath
  | FilePathEndsWithSlash
  | BufferTooLarge
  | FileNameTooLong
  | InvalidMode
  | FileCommentTooLarge
  | CommentTooLarge
  | CommentContainsSignature
  | NotEncodableCp437
  | Finalized
  | UnexpectedCompressedSize
  | UnexpectedNumberOfBytes
  | NotAFile
  | OutOfRange
  | External nat
  | PromiseNeverSettles

section \<open>Path validation\<close>

text \<open>\<open>metadataPath.replace(/\\/g, '/')\<close>\<close>

definition replace_backslashes :: "jsstring \<Rightarrow> jsstring" where
  "replace_backslashes s = map (\<lambda>c. if c = 0x5c then 0x2f else c) s"

text \<open>\<open>s.split(sep)\<close> for a one-character separator; the empty string gives one empty segment.\<close>

fun split_on :: "nat \<Rightarrow> jsstring \<Rightarrow> jsstring list" where
  "split_on sep [] = [[]]"
| "split_on sep (c # cs) =
     (if c = sep then [] # split_on sep cs
      else (case split_on sep cs of
              [] \<Rightarrow> [[c]]
            | seg # segs \<Rightarrow> (c # seg) # segs))"

definition is_ascii_letter :: "nat \<Rightarrow> bool" where
  "is_ascii_letter c = ((0x61 \<le> c \<and> c \<le> 0x7a) \<or> (0x41 \<le> c \<and> c \<le> 0x5a))"

text \<open>\<open>/^[a-zA-Z]:/.test(s)\<close>\<close>

fun matches_drive_letter :: "jsstring \<Rightarrow> bool" where
  "matches_drive_letter (c # d # cs) = (is_ascii_letter c \<and> d = 0x3a)"
| "matches_drive_letter cs = False"

text \<open>\<open>/^\//.test(s)\<close>\<close>

fun matches_leading_slash :: "jsstring \<Rightarrow> bool" where
  "matches_leading_slash (c # cs) = (c = 0x2f)"
| "matches_leading_slash [] = False"

text \<open>\<open>/\/$/.test(s)\<close>\<close>

definition matches_trailing_slash :: "jsstring \<Rightarrow> bool" where
  "matches_trailing_slash s = (s \<noteq> [] \<and> last s = 0x2f)"

definition validateMetadataPath :: "jsstring \<Rightarrow> bool \<Rightarrow> error + jsstring" where
  "validateMetadataPath metadataPath0 isDirectory =
     (if metadataPath0 = [] then Inl EmptyMetadataPath
      else
        let metadataPath = replace_backslashes metadataPath0 in
        if matches_drive_letter metadataPath \<or> matches_leading_slash metadataPath
          then Inl AbsolutePath
        else if ascii ''..'' \<in> set (split_on 0x2f metadataPath)
          then Inl InvalidRelativePath
        else
          let looksLikeDirectory = matches_trailing_slash metadataPath in
          if isDirectory then
            (if \<not> looksLikeDirectory then Inr (metadataPath @ ascii ''/'') else Inr metadataPath)
          else if looksLikeDirectory then Inl FilePathEndsWithSlash
          else Inr metadataPath)"

section \<open>Text encodings\<close>

text \<open>
  \<open>Buffer.from(string, 'utf-8')\<close> of the runtime: the UTF-8 bytes of a string of UTF-16 code
  units.  A surrogate pair is one code point of four bytes; a lone surrogate becomes U+FFFD.
\<close>

fun utf8_encode :: "jsstring \<Rightarrow> buffer" where
  "utf8_encode [] = []"
| "utf8_encode (c # cs) =
     (if c < 0x80 then of_nat c # utf8_encode cs
      else if c < 0x800 then
        of_nat (0xC0 + c div 0x40) # of_nat (0x80 + c mod 0x40) # utf8_encode cs
      else if 0xD800 \<le> c \<and> c < 0xDC00 then
        (case cs of
           [] \<Rightarrow> [0xEF, 0xBF, 0xBD]
         | d # ds \<Rightarrow>
             if 0xDC00 \<le> d \<and> d < 0xE000 then
               (let cp = 0x10000 + (c - 0xD800) * 0x400 + (d - 0xDC00) in
                  of_nat (0xF0 + cp div 0x40000) # of_nat (0x80 + (cp div 0x1000) mod 0x40)
                  # of_nat (0x80 + (cp div 0x40) mod 0x40) # of_nat (0x80 + cp mod 0x40)
                  # utf8_encode ds)
             else 0xEF # 0xBF # 0xBD # utf8_encode cs)
      else if 0xDC00 \<le> c \<and> c < 0xE000 then 0xEF # 0xBF # 0xBD # utf8_encode cs
      else of_nat (0xE0 + c div 0x1000) # of_nat (0x80 + (c div 0x40) mod 0x40)
           # of_nat (0x80 + c mod 0x40) # utf8_encode cs)"

text \<open>
  The 256 characters of the \<open>cp437\<close> string constant, as code units; the printable ASCII
  characters in the middle are written as characters, the others as numbers.
\<close>

definition cp437 :: jsstring where
  "cp437 = [
      0, 9786, 9787, 9829, 9830, 9827, 9824, 8226, 9688, 9675, 9689, 9794, 9792, 9834, 9835, 9788,
      9658, 9668, 8597, 8252, 182, 167, 9644, 8616, 8593, 8595, 8594, 8592, 8735, 8596, 9650, 9660]
    @ ascii '' !\"#$%&'()*+,-./0123456789:;<=>?@ABCDEFGHIJKLMNOPQRSTUVWXYZ[''
    @ [0x5c]
    @ ascii '']^_`abcdefghijklmnopqrstuvwxyz{|}~''
    @ [8962,
      199, 252, 233, 226, 228, 224, 229, 231, 234, 235, 232, 239, 238, 236, 196, 197,
      201, 230, 198, 244, 246, 242, 251, 249, 255, 214, 220, 162, 163, 165, 8359, 402,
      225, 237, 243, 250, 241, 209, 170, 186, 191, 8976, 172, 189, 188, 161, 171, 187,
      9617, 9618, 9619, 9474, 9508, 9569, 9570, 9558, 9557, 9571, 9553, 9559, 9565, 9564, 9563, 9488,
      9492, 9524, 9516, 9500, 9472, 9532, 9566, 9567, 9562, 9556, 9577, 9574, 9568, 9552, 9580, 9575,
      9576, 9572, 9573, 9561, 9560, 9554, 9555, 9579, 9578, 9496, 9484, 9608, 9604, 9612, 9616, 9600,
      945, 223, 915, 960, 931, 963, 181, 964, 934, 920, 937, 948, 8734, 966, 949, 8745,
      8801, 177, 8805, 8804, 8992, 8993, 247, 8776, 176, 8729, 183, 8730, 8319, 178, 9632, 160]"

text \<open>
  The reverse table: \<open>for (let i = 0; i < cp437.length; i++) reverseCp437[cp437[i]] = i\<close>,
  an object keyed by character; the loop is the recursion over the remaining characters with
  the running index.
\<close>

fun build_reverse :: "jsstring \<Rightarrow> nat \<Rightarrow> (nat \<rightharpoonup> nat) \<Rightarrow> (nat \<rightharpoonup> nat)" where
  "build_reverse [] i m = m"
| "build_reverse (c # cs) i m = build_reverse cs (i + 1) (m(c \<mapsto> i))"

definition reverseCp437 :: "nat \<rightharpoonup> nat" where
  "reverseCp437 = build_reverse cp437 0 Map.empty"

text \<open>\<open>/^[\x20-\x7e]*$/.test(string)\<close>\<close>

definition is_printable_ascii :: "nat \<Rightarrow> bool" where
  "is_printable_ascii c = (0x20 \<le> c \<and> c \<le> 0x7e)"

text \<open>The slow path's loop over the code units of the string.\<close>

fun encode_slow :: "(nat \<rightharpoonup> nat) \<Rightarrow> jsstring \<Rightarrow> error + buffer" where
  "encode_slow rev_table [] = Inr []"
| "encode_slow rev_table (c # cs) =
     (case rev_table c of
        None \<Rightarrow> Inl NotEncodableCp437
      | Some b \<Rightarrow>
          (case encode_slow rev_table cs of
             Inl e \<Rightarrow> Inl e
           | Inr bs \<Rightarrow> Inr (of_nat b # bs)))"

definition encodeCp437 :: "jsstring \<Rightarrow> error + buffer" where
  "encodeCp437 string =
     (if list_all is_printable_ascii string then Inr (utf8_encode string)
      else encode_slow reverseCp437 string)"

section \<open>Buffer writes\<close>

text \<open>
  \<open>buf.writeUInt16LE(value, offset)\<close> and \<open>buf.writeUInt32LE(value, offset)\<close> of the runtime
  throw a range error when \<open>value\<close> lies outside the field; \<open>undefined\<close> becomes NaN, passes
  the range check and is stored as zero bytes.  Every encoder allocates a buffer and fills it
  from offset 0 to its end without gaps, so a buffer is modelled as the concatenation of its
  fields in offset order.
\<close>

definition writeUInt16LE :: "int option \<Rightarrow> error + buffer" where
  "writeUInt16LE value =
     (case value of
        None \<Rightarrow> Inr [0, 0]
      | Some v \<Rightarrow>
          if v > 0xffff \<or> v < 0 then Inl OutOfRange
          else Inr [word_of_int v, word_of_int (v div 0x100)])"

definition writeUInt32LE :: "int option \<Rightarrow> error + buffer" where
  "writeUInt32LE value =
     (case value of
        None \<Rightarrow> Inr [0, 0, 0, 0]
      | Some v \<Rightarrow>
          if v > 0xffffffff \<or> v < 0 then Inl OutOfRange
          else Inr [word_of_int v, word_of_int (v div 0x100),
                    word_of_int (v div 0x10000), word_of_int (v div 0x1000000)])"

text \<open>Consecutive writes: the first one that throws ends the encoder.\<close>

fun write_all :: "(error + buffer) list \<Rightarrow> error + buffer" where
  "write_all [] = Inr []"
| "write_all (w # ws) =
     (case w of
        Inl e \<Rightarrow> Inl e
      | Inr b \<Rightarrow> (case write_all ws of Inl e \<Rightarrow> Inl e | Inr bs \<Rightarrow> Inr (b @ bs)))"

text \<open>The remainder operator \<open>%\<close> takes the sign of the dividend.\<close>

definition js_rem :: "int \<Rightarrow> int \<Rightarrow> int" where
  "js_rem a b = sgn a * (\<bar>a\<bar> mod \<bar>b\<bar>)"

definition writeUInt64LE :: "int option \<Rightarrow> error + buffer" where
  "writeUInt64LE n =
     (let high = map_option (\<lambda>v. v div 0x100000000) n;
          low = map_option (\<lambda>v. js_rem v 0x100000000) n
      in write_all [writeUInt32LE low, writeUInt32LE high])"

text \<open>\<open>x > k\<close> for a possibly undefined \<open>x\<close>: \<open>undefined > k\<close> is false.\<close>

definition js_gt :: "int option \<Rightarrow> int \<Rightarrow> bool" where
  "js_gt x k = (case x of None \<Rightarrow> False | Some v \<Rightarrow> v > k)"

section \<open>Entries\<close>

record jsdate =
  utcFullYear :: int
  utcMonth :: int
  utcDate :: int
  utcHours :: int
  utcMinutes :: int
  utcSeconds :: int

text \<open>The pair is (date, time).\<close>

definition dateToDosDateTime :: "jsdate \<Rightarrow> int \<times> int" where
  "dateToDosDateTime d =
     ((utcDate d AND 0x1f)
        OR push_bit 5 ((utcMonth d + 1) AND 0xf)
        OR push_bit 9 ((utcFullYear d - 1980) AND 0x7f),
      (utcSeconds d div 2)
        OR push_bit 5 (utcMinutes d AND 0x3f)
        OR push_bit 11 (utcHours d AND 0x1f))"

datatype comment_arg = CommentString jsstring | CommentBuffer buffer

record options =
  opt_compress :: "bool option"
  opt_forceZip64Format :: "bool option"
  opt_mode :: "int option"
  opt_mtime :: "jsdate option"
  opt_size :: "int option"
  opt_compressedSize :: "int option"
  opt_crc32 :: "int option"
  opt_fileComment :: "comment_arg option"
  opt_comment :: "comment_arg option"

definition no_options :: options where
  "no_options = \<lparr> opt_compress = None, opt_forceZip64Format = None, opt_mode = None,
     opt_mtime = None, opt_size = None, opt_compressedSize = None, opt_crc32 = None,
     opt_fileComment = None, opt_comment = None \<rparr>"

record entry =
  utf8FileName :: buffer
  lastModFileTime :: int
  lastModFileDate :: int
  externalFileAttributes :: int
  crc32 :: "int option"
  uncompressedSize :: "int option"
  compressedSize :: "int option"
  compress :: bool
  crcAndFileSizeKnown :: bool
  forceZip64Format :: bool
  fileComment :: buffer
  relativeOffsetOfLocalHeader :: "int option"

text \<open>
  The constructor of class \<open>Entry\<close>.  The first argument is the value of \<open>new Date()\<close>, used
  when no \<open>mtime\<close> is given.  An undefined \<open>mode\<close> fails the mode check
  (\<open>undefined & 0xffff\<close> is \<open>0\<close>).  \<open>relativeOffsetOfLocalHeader\<close> is not assigned here.
\<close>

definition Entry :: "jsdate \<Rightarrow> jsstring \<Rightarrow> options \<Rightarrow> error + entry" where
  "Entry now metadataPath opts =
     (let name = utf8_encode metadataPath in
      if int (length name) > 0xffff then Inl FileNameTooLong
      else
        let dosDateTime = dateToDosDateTime (case opt_mtime opts of None \<Rightarrow> now | Some d \<Rightarrow> d) in
        case opt_mode opts of
          None \<Rightarrow> Inl InvalidMode
        | Some mode \<Rightarrow>
            if (mode AND 0xffff) \<noteq> mode then Inl InvalidMode
            else
              let comment =
                    (case opt_fileComment opts of
                       None \<Rightarrow> []
                     | Some (CommentString s) \<Rightarrow> utf8_encode s
                     | Some (CommentBuffer b) \<Rightarrow> b)
              in
              if opt_fileComment opts \<noteq> None \<and> int (length comment) > 0xffff
                then Inl FileCommentTooLarge
              else Inr \<lparr>
                utf8FileName = name,
                lastModFileTime = snd dosDateTime,
                lastModFileDate = fst dosDateTime,
                externalFileAttributes = take_bit 32 (push_bit 16 mode),
                crc32 = opt_crc32 opts,
                uncompressedSize = opt_size opts,
                compressedSize = opt_compressedSize opts,
                compress = (opt_compress opts = Some True),
                crcAndFileSizeKnown =
                  (opt_crc32 opts \<noteq> None \<and> opt_size opts \<noteq> None
                   \<and> opt_compressedSize opts \<noteq> None),
                forceZip64Format = (opt_forceZip64Format opts = Some True),
                fileComment = comment,
                relativeOffsetOfLocalHeader = None \<rparr>)"

text \<open>
  \<open>DirectoryEntry\<close> passes \<open>uncompressedSize: 0\<close> to the base constructor, a property the
  base constructor never reads (it reads \<open>options.size\<close>), so \<open>opt_size\<close> is passed on as the
  caller gave it.
\<close>

definition DirectoryEntry :: "jsdate \<Rightarrow> jsstring \<Rightarrow> options \<Rightarrow> error + entry" where
  "DirectoryEntry now metadataPath opts =
     Entry now metadataPath
       (opts\<lparr> opt_mode := Some (case opt_mode opts of None \<Rightarrow> 0x41fd | Some m \<Rightarrow> m),
              opt_crc32 := Some 0,
              opt_compressedSize := Some 0,
              opt_compress := Some False \<rparr>)"

definition FileEntry :: "jsdate \<Rightarrow> jsstring \<Rightarrow> options \<Rightarrow> error + entry" where
  "FileEntry now metadataPath opts =
     Entry now metadataPath
       (opts\<lparr> opt_mode := Some (case opt_mode opts of None \<Rightarrow> 0x81b4 | Some m \<Rightarrow> m) \<rparr>)"

section \<open>Byte encoders\<close>

definition generalPurposeBitFlag :: "entry \<Rightarrow> int" where
  "generalPurposeBitFlag e =
     (if \<not> crcAndFileSizeKnown e then push_bit 11 1 OR push_bit 3 1 else push_bit 11 1)"

definition compression_method :: "entry \<Rightarrow> int" where
  "compression_method e = (if compress e then 8 else 0)"

text \<open>The local variable \<open>useZip64Format\<close> of the two per-entry encoders.\<close>

definition useZip64Format :: "entry \<Rightarrow> bool" where
  "useZip64Format e =
     (forceZip64Format e
      \<or> js_gt (uncompressedSize e) 0xfffffffe
      \<or> js_gt (compressedSize e) 0xfffffffe
      \<or> js_gt (relativeOffsetOfLocalHeader e) 0xfffffffe)"

definition getCentralDirectoryRecord :: "entry \<Rightarrow> error + buffer" where
  "getCentralDirectoryRecord e =
     (let normalCompressedSize = (if useZip64Format e then Some 0xffffffff else compressedSize e);
          normalUncompressedSize = (if useZip64Format e then Some 0xffffffff else uncompressedSize e);
          normalRelativeOffsetOfLocalHeader =
            (if useZip64Format e then Some 0xffffffff else relativeOffsetOfLocalHeader e);
          versionNeededToExtract = (if useZip64Format e then 45 else 20);
          zeief =
            (if useZip64Format e then
               write_all [
                 writeUInt16LE (Some 0x0001),
                 writeUInt16LE (Some (28 - 4)),
                 writeUInt64LE (uncompressedSize e),
                 writeUInt64LE (compressedSize e),
                 writeUInt64LE (relativeOffsetOfLocalHeader e)]
             else Inr [])
      in
      case zeief of
        Inl err \<Rightarrow> Inl err
      | Inr zeiefBuffer \<Rightarrow>
          (case write_all [
                  writeUInt32LE (Some 0x02014b50),
                  writeUInt16LE (Some (push_bit 8 3 OR 63)),
                  writeUInt16LE (Some versionNeededToExtract),
                  writeUInt16LE (Some (generalPurposeBitFlag e)),
                  writeUInt16LE (Some (compression_method e)),
                  writeUInt16LE (Some (lastModFileTime e)),
                  writeUInt16LE (Some (lastModFileDate e)),
                  writeUInt32LE (crc32 e),
                  writeUInt32LE normalCompressedSize,
                  writeUInt32LE normalUncompressedSize,
                  writeUInt16LE (Some (int (length (utf8FileName e)))),
                  writeUInt16LE (Some (int (length zeiefBuffer))),
                  writeUInt16LE (Some (int (length (fileComment e)))),
                  writeUInt16LE (Some 0),
                  writeUInt16LE (Some 0),
                  writeUInt32LE (Some (externalFileAttributes e)),
                  writeUInt32LE normalRelativeOffsetOfLocalHeader]
           of
             Inl err \<Rightarrow> Inl err
           | Inr fixedSizeStuff \<Rightarrow>
               Inr (fixedSizeStuff @ utf8FileName e @ zeiefBuffer @ fileComment e)))"

definition getLocalFileHeader :: "entry \<Rightarrow> error + buffer" where
  "getLocalFileHeader e =
     (let crc = (if crcAndFileSizeKnown e then crc32 e else Some 0);
          csize = (if crcAndFileSizeKnown e then compressedSize e else Some 0);
          usize = (if crcAndFileSizeKnown e then uncompressedSize e else Some 0)
      in
      case write_all [
             writeUInt32LE (Some 0x04034b50),
             writeUInt16LE (Some 20),
             writeUInt16LE (Some (generalPurposeBitFlag e)),
             writeUInt16LE (Some (compression_method e)),
             writeUInt16LE (Some (lastModFileTime e)),
             writeUInt16LE (Some (lastModFileDate e)),
             writeUInt32LE crc,
             writeUInt32LE csize,
             writeUInt32LE usize,
             writeUInt16LE (Some (int (length (utf8FileName e)))),
             writeUInt16LE (Some 0)]
      of
        Inl err \<Rightarrow> Inl err
      | Inr fixedSizeStuff \<Rightarrow> Inr (fixedSizeStuff @ utf8FileName e))"

definition getDataDescriptor :: "entry \<Rightarrow> error + buffer" where
  "getDataDescriptor e =
     (if crcAndFileSizeKnown e then Inr []
      else if \<not> useZip64Format e then
        write_all [
          writeUInt32LE (Some 0x08074b50),
          writeUInt32LE (crc32 e),
          writeUInt32LE (compressedSize e),
          writeUInt32LE (uncompressedSize e)]
      else
        write_all [
          writeUInt32LE (Some 0x08074b50),
          writeUInt32LE (crc32 e),
          writeUInt64LE (compressedSize e),
          writeUInt64LE (uncompressedSize e)])"

text \<open>
  The record that the central-directory task builds, passes to the end-of-central-directory
  encoder and returns to the caller.
\<close>

record eocd_record =
  rec_offsetOfStartOfCentralDirectory :: int
  rec_forceZip64Format :: bool
  rec_comment :: buffer
  rec_outputStreamCursor :: int
  rec_entriesCount :: int

text \<open>
  The encoder returns a number when \<open>actuallyJustTellMeHowLongItWouldBe\<close> is set and a buffer
  otherwise.
\<close>

datatype eocdr_result = HowLong int | Encoded buffer

text \<open>The local variable \<open>needZip64Format\<close> after the three threshold tests.\<close>

definition needZip64Format :: "eocd_record \<Rightarrow> bool" where
  "needZip64Format r =
     ((rec_forceZip64Format r \<or> rec_entriesCount r \<ge> 0xffff)
      \<or> (rec_forceZip64Format r
          \<or> rec_outputStreamCursor r - rec_offsetOfStartOfCentralDirectory r \<ge> 0xffffffff)
      \<or> (rec_forceZip64Format r \<or> rec_offsetOfStartOfCentralDirectory r \<ge> 0xffffffff))"

definition getEndOfCentralDirectoryRecord :: "eocd_record \<Rightarrow> bool \<Rightarrow> error + eocdr_result" where
  "getEndOfCentralDirectoryRecord r actuallyJustTellMeHowLongItWouldBe =
     (let entriesCount = rec_entriesCount r;
          offsetOfStartOfCentralDirectory = rec_offsetOfStartOfCentralDirectory r;
          normalEntriesLength =
            (if rec_forceZip64Format r \<or> entriesCount \<ge> 0xffff then 0xffff else entriesCount);
          sizeOfCentralDirectory = rec_outputStreamCursor r - offsetOfStartOfCentralDirectory;
          normalSizeOfCentralDirectory =
            (if rec_forceZip64Format r \<or> sizeOfCentralDirectory \<ge> 0xffffffff
             then 0xffffffff else sizeOfCentralDirectory);
          normalOffsetOfStartOfCentralDirectory =
            (if rec_forceZip64Format r \<or> offsetOfStartOfCentralDirectory \<ge> 0xffffffff
             then 0xffffffff else offsetOfStartOfCentralDirectory)
      in
      if actuallyJustTellMeHowLongItWouldBe then
        (if needZip64Format r then Inr (HowLong (56 + 20 + 22)) else Inr (HowLong 22))
      else
        case write_all [
               writeUInt32LE (Some 0x06054b50),
               writeUInt16LE (Some 0),
               writeUInt16LE (Some 0),
               writeUInt16LE (Some normalEntriesLength),
               writeUInt16LE (Some normalEntriesLength),
               writeUInt32LE (Some normalSizeOfCentralDirectory),
               writeUInt32LE (Some normalOffsetOfStartOfCentralDirectory),
               writeUInt16LE (Some (int (length (rec_comment r)))),
               Inr (rec_comment r)]
        of
          Inl err \<Rightarrow> Inl err
        | Inr eocdrBuffer \<Rightarrow>
            if \<not> needZip64Format r then Inr (Encoded eocdrBuffer)
            else
              (case write_all [
                      writeUInt32LE (Some 0x06064b50),
                      writeUInt64LE (Some (56 - 12)),
                      writeUInt16LE (Some (push_bit 8 3 OR 63)),
                      writeUInt16LE (Some 45),
                      writeUInt32LE (Some 0),
                      writeUInt32LE (Some 0),
                      writeUInt64LE (Some entriesCount),
                      writeUInt64LE (Some entriesCount),
                      writeUInt64LE (Some sizeOfCentralDirectory),
                      writeUInt64LE (Some offsetOfStartOfCentralDirectory)]
               of
                 Inl err \<Rightarrow> Inl err
               | Inr zip64EocdrBuffer \<Rightarrow>
                   (case write_all [
                           writeUInt32LE (Some 0x07064b50),
                           writeUInt32LE (Some 0),
                           writeUInt64LE (Some (rec_outputStreamCursor r)),
                           writeUInt32LE (Some 1)]
                    of
                      Inl err \<Rightarrow> Inl err
                    | Inr zip64EocdlBuffer \<Rightarrow>
                        Inr (Encoded (zip64EocdrBuffer @ zip64EocdlBuffer @ eocdrBuffer)))))"

text \<open>
  Reading little-endian fields back from a byte sequence: the observations in which the
  properties of the encoders are stated.
\<close>

definition u16_at :: "buffer \<Rightarrow> nat \<Rightarrow> int" where
  "u16_at bs off = uint (bs ! off) + 0x100 * uint (bs ! (off + 1))"

definition u32_at :: "buffer \<Rightarrow> nat \<Rightarrow> int" where
  "u32_at bs off = u16_at bs off + 0x10000 * u16_at bs (off + 2)"

definition u64_at :: "buffer \<Rightarrow> nat \<Rightarrow> int" where
  "u64_at bs off = u32_at bs off + 0x100000000 * u32_at bs (off + 4)"

definition slice :: "buffer \<Rightarrow> nat \<Rightarrow> nat \<Rightarrow> buffer" where
  "slice bs off n = take n (drop off bs)"

text \<open>
  What a write stores for a possibly undefined value, the range in which a write succeeds,
  and the little-endian bytes of a field.
\<close>

definition stored :: "int option \<Rightarrow> int" where
  "stored v = (case v of None \<Rightarrow> 0 | Some n \<Rightarrow> n)"

definition in_range :: "int \<Rightarrow> int option \<Rightarrow> bool" where
  "in_range m v = (case v of None \<Rightarrow> True | Some n \<Rightarrow> 0 \<le> n \<and> n \<le> m)"

definition le16 :: "int option \<Rightarrow> buffer" where
  "le16 v = [word_of_int (stored v), word_of_int (stored v div 0x100)]"

definition le32 :: "int option \<Rightarrow> buffer" where
  "le32 v = [word_of_int (stored v), word_of_int (stored v div 0x100),
             word_of_int (stored v div 0x10000), word_of_int (stored v div 0x1000000)]"

definition le64 :: "int option \<Rightarrow> buffer" where
  "le64 v = le32 (Some (stored v mod 0x100000000)) @ le32 (Some (stored v div 0x100000000))"



text \<open>
  The two shapes of a central directory record, read back from its bytes: version needed at
  offset 6, compressed size at 20, uncompressed size at 24, extra field length at 30, local
  header offset at 42, the extra field after the 46 fixed bytes and the file name.
\<close>

definition zip64_fields :: "entry \<Rightarrow> buffer \<Rightarrow> bool" where
  "zip64_fields e bs =
     (u16_at bs 6 = 45
      \<and> u32_at bs 20 = 0xffffffff \<and> u32_at bs 24 = 0xffffffff \<and> u32_at bs 42 = 0xffffffff
      \<and> u16_at bs 30 = 28
      \<and> u16_at (slice bs (46 + length (utf8FileName e)) 28) 0 = 0x0001
      \<and> u16_at (slice bs (46 + length (utf8FileName e)) 28) 2 = 24
      \<and> u64_at (slice bs (46 + length (utf8FileName e)) 28) 4 = stored (uncompressedSize e)
      \<and> u64_at (slice bs (46 + length (utf8FileName e)) 28) 12 = stored (compressedSize e)
      \<and> u64_at (slice bs (46 + length (utf8FileName e)) 28) 20
          = stored (relativeOffsetOfLocalHeader e)
      \<and> length bs = 46 + length (utf8FileName e) + 28 + length (fileComment e))"

definition normal_fields :: "entry \<Rightarrow> buffer \<Rightarrow> bool" where
  "normal_fields e bs =
     (u16_at bs 6 = 20
      \<and> u32_at bs 20 = stored (compressedSize e)
      \<and> u32_at bs 24 = stored (uncompressedSize e)
      \<and> u32_at bs 42 = stored (relativeOffsetOfLocalHeader e)
      \<and> u16_at bs 30 = 0
      \<and> length bs = 46 + length (utf8FileName e) + length (fileComment e))"

text \<open>
  The entries whose central directory record can be written: every value fits the field it
  is written to (values that may be undefined fit as zero).  Sizes and offset are written
  to 8-byte fields when the record is a ZIP64 record and to 4-byte fields otherwise.
\<close>

definition cdr_fields_fit :: "entry \<Rightarrow> bool" where
  "cdr_fields_fit e =
     (in_range 0xffff (Some (lastModFileTime e))
      \<and> in_range 0xffff (Some (lastModFileDate e))
      \<and> in_range 0xffffffff (crc32 e)
      \<and> in_range 0xffffffff (Some (externalFileAttributes e))
      \<and> in_range 0xffff (Some (int (length (utf8FileName e))))
      \<and> in_range 0xffff (Some (int (length (fileComment e))))
      \<and> in_range (if useZip64Format e then 0xffffffffffffffff else 0xffffffff)
            (uncompressedSize e)
      \<and> in_range (if useZip64Format e then 0xffffffffffffffff else 0xffffffff)
            (compressedSize e)
      \<and> in_range (if useZip64Format e then 0xffffffffffffffff else 0xffffffff)
            (relativeOffsetOfLocalHeader e))"

text \<open>An entry of one-byte name \<open>a\<close> to evaluate the encoders on.\<close>

definition example_entry :: "int option \<Rightarrow> bool \<Rightarrow> entry" where
  "example_entry usize force = \<lparr>
     utf8FileName = [0x61], lastModFileTime = 0, lastModFileDate = 0x21,
     externalFileAttributes = 0x81b40000, crc32 = Some 0,
     uncompressedSize = usize, compressedSize = Some 5, compress = False,
     crcAndFileSizeKnown = False, forceZip64Format = force, fileComment = [],
     relativeOffsetOfLocalHeader = Some 0 \<rparr>"

text \<open>
  When the end-of-central-directory encoder needs the ZIP64 format, and the two shapes of its
  output read back from the bytes: the classic 22-byte record followed by the comment, or the
  56-byte ZIP64 record and the 20-byte locator in front of the classic record.
\<close>

definition eocd_condition :: "eocd_record \<Rightarrow> bool" where
  "eocd_condition r =
     (rec_forceZip64Format r
      \<or> rec_entriesCount r \<ge> 0xffff
      \<or> rec_outputStreamCursor r - rec_offsetOfStartOfCentralDirectory r \<ge> 0xffffffff
      \<or> rec_offsetOfStartOfCentralDirectory r \<ge> 0xffffffff)"

definition eocd_classic :: "eocd_record \<Rightarrow> buffer \<Rightarrow> bool" where
  "eocd_classic r bs =
     (length bs = 22 + length (rec_comment r)
      \<and> u32_at bs 0 = 0x06054b50
      \<and> u16_at bs 8 = rec_entriesCount r
      \<and> u16_at bs 10 = rec_entriesCount r
      \<and> u32_at bs 12 = rec_outputStreamCursor r - rec_offsetOfStartOfCentralDirectory r
      \<and> u32_at bs 16 = rec_offsetOfStartOfCentralDirectory r)"

definition eocd_zip64 :: "eocd_record \<Rightarrow> buffer \<Rightarrow> bool" where
  "eocd_zip64 r bs =
     (length bs = 56 + 20 + 22 + length (rec_comment r)
      \<and> u32_at bs 0 = 0x06064b50
      \<and> u64_at bs 24 = rec_entriesCount r
      \<and> u64_at bs 32 = rec_entriesCount r
      \<and> u64_at bs 40 = rec_outputStreamCursor r - rec_offsetOfStartOfCentralDirectory r
      \<and> u64_at bs 48 = rec_offsetOfStartOfCentralDirectory r
      \<and> u32_at bs 56 = 0x07064b50
      \<and> u64_at bs 64 = rec_outputStreamCursor r
      \<and> u32_at bs 76 = 0x06054b50
      \<and> u16_at bs 84 =
            (if rec_forceZip64Format r \<or> rec_entriesCount r \<ge> 0xffff then 0xffff
             else rec_entriesCount r)
      \<and> u16_at bs 86 = u16_at bs 84
      \<and> u32_at bs 88 =
            (if rec_forceZip64Format r
                \<or> rec_outputStreamCursor r - rec_offsetOfStartOfCentralDirectory r \<ge> 0xffffffff
             then 0xffffffff
             else rec_outputStreamCursor r - rec_offsetOfStartOfCentralDirectory r)
      \<and> u32_at bs 92 =
            (if rec_forceZip64Format r \<or> rec_offsetOfStartOfCentralDirectory r \<ge> 0xffffffff
             then 0xffffffff else rec_offsetOfStartOfCentralDirectory r))"

text \<open>
  The records for which the end-of-central-directory structure can be written: the comment
  length fits 16 bits, count, size and offset are not negative, and the values written to
  8-byte fields in the ZIP64 variant fit them.
\<close>

definition eocd_fields_fit :: "eocd_record \<Rightarrow> bool" where
  "eocd_fields_fit r =
     (int (length (rec_comment r)) \<le> 0xffff
      \<and> 0 \<le> rec_entriesCount r
      \<and> 0 \<le> rec_outputStreamCursor r - rec_offsetOfStartOfCentralDirectory r
      \<and> 0 \<le> rec_offsetOfStartOfCentralDirectory r
      \<and> (eocd_condition r \<longrightarrow>
            rec_entriesCount r \<le> 0xffffffffffffffff
            \<and> rec_outputStreamCursor r - rec_offsetOfStartOfCentralDirectory r
                \<le> 0xffffffffffffffff
            \<and> rec_offsetOfStartOfCentralDirectory r \<le> 0xffffffffffffffff
            \<and> rec_outputStreamCursor r \<le> 0xffffffffffffffff))"

text \<open>
  A record of 40000 entries whose central directory of the given size starts at offset
  2000000000.
\<close>

definition example_record :: "int \<Rightarrow> eocd_record" where
  "example_record size_of_directory = \<lparr> rec_offsetOfStartOfCentralDirectory = 2000000000,
     rec_forceZip64Format = False, rec_comment = [],
     rec_outputStreamCursor = 2000000000 + size_of_directory,
     rec_entriesCount = 40000 \<rparr>"

section \<open>The archive\<close>

text \<open>
  What lies outside the library is a parameter: the CRC-32 of a chunk given the running
  value (\<open>buffer-crc32\<close>), one-shot raw deflate of a buffer (\<open>zlib.deflateRaw\<close>, which may
  report an error), the streaming raw deflate transform as a function from the sequence of
  chunks written to it to the sequence of chunks it emits, opening and examining a file
  (\<open>fs.promises.open\<close> and \<open>handle.stat()\<close>, which may fail, with the chunks that
  \<open>handle.createReadStream()\<close> then delivers), and the current time.
\<close>

record stats =
  isFile :: bool
  stat_mode :: int
  stat_mtime :: jsdate
  stat_size :: int

record env =
  crc32Unsigned :: "buffer \<Rightarrow> int \<Rightarrow> int"
  deflateRaw :: "buffer \<Rightarrow> error + buffer"
  deflateRawStream :: "buffer list \<Rightarrow> buffer list"
  fsOpen :: "jsstring \<Rightarrow> error + stats \<times> buffer list"
  now :: jsdate

text \<open>
  The promise in \<open>this.queue\<close>.  Every task is chained with \<open>then\<close> on the promise of the
  task before it, so tasks run one after the other in the order of the calls, and a task
  chained on a rejected promise is skipped and rejects with the same error.  A task chained
  on a promise that stays pending never runs.  The model runs a task when its call is made:
  each call sees the archive as the calls before it have left it.  \<open>queue = None\<close> after
  \<open>delete this.queue\<close>.

  The second component of what an operation returns says how the call ends: \<open>Inr\<close> with the
  value its promise resolves to, \<open>Inl\<close> with the error it throws or its promise rejects
  with, and \<open>Inl PromiseNeverSettles\<close>, which is no error of the library, when the promise
  stays pending for ever.
\<close>

datatype queue_state = Resolved | Rejected error | Pending

text \<open>
  \<open>pushed\<close> holds the bytes handed to the readable side with \<open>push\<close>, in order; \<open>ended\<close>
  records \<open>push(null)\<close>, \<open>destroyed\<close> records \<open>destroy()\<close>.  \<open>uncaughtException\<close> holds an
  error thrown where no promise catches it.  \<open>entries\<close> is the list \<open>this.entries\<close> of the
  class of \<open>index.js\<close>, as it is when the operation modelled reads it.
\<close>

record zipfile =
  queue :: "queue_state option"
  outputStreamCursor :: int
  pushed :: buffer
  ended :: bool
  destroyed :: bool
  offsetOfStartOfCentralDirectory :: "int option"
  uncaughtException :: "error option"
  entries :: "entry list"

definition ZipFile_new :: zipfile where
  "ZipFile_new = \<lparr> queue = Some Resolved, outputStreamCursor = 0, pushed = [], ended = False,
     destroyed = False, offsetOfStartOfCentralDirectory = None, uncaughtException = None,
     entries = [] \<rparr>"

definition writeBuffer :: "zipfile \<Rightarrow> buffer \<Rightarrow> zipfile" where
  "writeBuffer self b =
     self\<lparr> pushed := pushed self @ b,
           outputStreamCursor := outputStreamCursor self + int (length b) \<rparr>"

text \<open>
  The read stream is the sequence of chunks it delivers before it ends.  Every chunk passes
  the CRC stage, the counting stage, the deflate transform (or \<open>PassThrough\<close>) and the second
  counting stage; every chunk that leaves the last stage is pushed; on \<open>end\<close> the sizes are
  checked and the cursor advances.  The check of the uncompressed size throws inside the
  listener of the \<open>end\<close> event, outside the executor of the promise that
  \<open>writeEntryStream\<close> returns: \<open>resolve\<close> is not reached and \<open>reject\<close> is not called, so the
  promise stays pending and the error is an uncaught exception.
\<close>

definition writeEntryStream ::
  "env \<Rightarrow> zipfile \<Rightarrow> entry \<Rightarrow> buffer list \<Rightarrow> zipfile \<times> (error + entry)" where
  "writeEntryStream ev self e readStream =
     (let crc = foldl (\<lambda>c chunk. crc32Unsigned ev chunk c) 0 readStream;
          uncompressedSizeCount = (\<Sum>chunk\<leftarrow>readStream. int (length chunk));
          out = (if compress e then deflateRawStream ev readStream else readStream);
          compressedSizeCount = (\<Sum>chunk\<leftarrow>out. int (length chunk));
          self1 = self\<lparr> pushed := pushed self @ concat out \<rparr>;
          e1 = e\<lparr> crc32 := Some crc \<rparr>
      in
      case uncompressedSize e1 of
        None \<Rightarrow>
          (self1\<lparr> outputStreamCursor := outputStreamCursor self1 + compressedSizeCount \<rparr>,
           Inr (e1\<lparr> uncompressedSize := Some uncompressedSizeCount \<rparr>))
      | Some declared \<Rightarrow>
          if declared \<noteq> uncompressedSizeCount
          then (self1\<lparr> uncaughtException := Some UnexpectedNumberOfBytes \<rparr>,
                Inl PromiseNeverSettles)
          else
            (self1\<lparr> outputStreamCursor := outputStreamCursor self1 + compressedSizeCount \<rparr>,
             Inr e1))"

text \<open>The three \<open>write\<close> callbacks that the add operations hand to \<open>addEntry\<close>.\<close>

datatype write_action = WriteEntryStream "buffer list" | WriteBuffer buffer | WriteNothing

fun run_write :: "env \<Rightarrow> zipfile \<Rightarrow> entry \<Rightarrow> write_action \<Rightarrow> zipfile \<times> (error + entry)" where
  "run_write ev self e (WriteEntryStream readStream) = writeEntryStream ev self e readStream"
| "run_write ev self e (WriteBuffer b) = (writeBuffer self b, Inr e)"
| "run_write ev self e WriteNothing = (self, Inr e)"

text \<open>
  The body of the task that \<open>addEntry\<close> chains on the queue.  \<open>callback\<close> is what
  \<open>await callback()\<close> yields: an error, or the entry and its \<open>write\<close>.  When the promise of
  \<open>write\<close> stays pending, so does the task.
\<close>

definition entryTask ::
  "env \<Rightarrow> zipfile \<Rightarrow> error + entry \<times> write_action \<Rightarrow> zipfile \<times> (error + entry)" where
  "entryTask ev self callback =
     (case callback of
        Inl err \<Rightarrow> (self, Inl err)
      | Inr (entry0, write) \<Rightarrow>
          let e = entry0\<lparr> relativeOffsetOfLocalHeader := Some (outputStreamCursor self) \<rparr> in
          case getLocalFileHeader e of
            Inl err \<Rightarrow> (self, Inl err)
          | Inr header \<Rightarrow>
              let self1 = writeBuffer self header;
                  cursor = outputStreamCursor self1
              in
              case run_write ev self1 e write of
                (self2, Inl err) \<Rightarrow> (self2, Inl err)
              | (self2, Inr e2) \<Rightarrow>
                  let compressedSizeCount = outputStreamCursor self2 - cursor in
                  case (case compressedSize e2 of
                          None \<Rightarrow> Inr (e2\<lparr> compressedSize := Some compressedSizeCount \<rparr>)
                        | Some declared \<Rightarrow>
                            if compressedSizeCount \<noteq> declared then Inl UnexpectedCompressedSize
                            else Inr e2)
                  of
                    Inl err \<Rightarrow> (self2, Inl err)
                  | Inr e3 \<Rightarrow>
                      (case getDataDescriptor e3 of
                         Inl err \<Rightarrow> (self2, Inl err)
                       | Inr descriptor \<Rightarrow> (writeBuffer self2 descriptor, Inr e3)))"

text \<open>
  \<open>addEntry\<close>: refused once the queue is deleted; otherwise the task is chained and the
  \<open>catch\<close> handler destroys the stream when the queue rejects.  A task that stays pending
  leaves the queue pending: nothing is rejected and nothing destroyed.  The first component
  is the archive afterwards, the second is how the returned promise ends.
\<close>

definition addEntry ::
  "env \<Rightarrow> zipfile \<Rightarrow> error + entry \<times> write_action \<Rightarrow> zipfile \<times> (error + entry)" where
  "addEntry ev self callback =
     (case queue self of
        None \<Rightarrow> (self, Inl Finalized)
      | Some (Rejected err) \<Rightarrow> (self\<lparr> destroyed := True \<rparr>, Inl err)
      | Some Pending \<Rightarrow> (self, Inl PromiseNeverSettles)
      | Some Resolved \<Rightarrow>
          (case entryTask ev self callback of
             (self', Inl err) \<Rightarrow>
               if err = PromiseNeverSettles
               then (self'\<lparr> queue := Some Pending \<rparr>, Inl PromiseNeverSettles)
               else (self'\<lparr> queue := Some (Rejected err), destroyed := True \<rparr>, Inl err)
           | (self', Inr e) \<Rightarrow> (self', Inr e)))"

definition default_true :: "bool option \<Rightarrow> bool" where
  "default_true b = (case b of None \<Rightarrow> True | Some v \<Rightarrow> v)"

definition default_false :: "bool option \<Rightarrow> bool" where
  "default_false b = (case b of None \<Rightarrow> False | Some v \<Rightarrow> v)"

definition addFile ::
  "env \<Rightarrow> zipfile \<Rightarrow> jsstring \<Rightarrow> jsstring \<Rightarrow> options \<Rightarrow> zipfile \<times> (error + entry)" where
  "addFile ev self realPath metadataPath0 opts =
     (case validateMetadataPath metadataPath0 False of
        Inl err \<Rightarrow> (self, Inl err)
      | Inr metadataPath \<Rightarrow>
          addEntry ev self
            (case fsOpen ev realPath of
               Inl err \<Rightarrow> Inl err
             | Inr (st, readStream) \<Rightarrow>
                 if \<not> isFile st then Inl NotAFile
                 else
                   (case FileEntry (now ev) metadataPath
                           (opts\<lparr> opt_compress := Some (default_true (opt_compress opts)),
                                  opt_forceZip64Format :=
                                    Some (default_false (opt_forceZip64Format opts)),
                                  opt_mode := Some (case opt_mode opts of
                                                      None \<Rightarrow> stat_mode st | Some m \<Rightarrow> m),
                                  opt_mtime := Some (case opt_mtime opts of
                                                       None \<Rightarrow> stat_mtime st | Some d \<Rightarrow> d),
                                  opt_size := Some (stat_size st) \<rparr>)
                    of
                      Inl err \<Rightarrow> Inl err
                    | Inr e \<Rightarrow> Inr (e, WriteEntryStream readStream))))"

definition addReadStream ::
  "env \<Rightarrow> zipfile \<Rightarrow> buffer list \<Rightarrow> jsstring \<Rightarrow> options \<Rightarrow> zipfile \<times> (error + entry)" where
  "addReadStream ev self readStream metadataPath0 opts =
     (case validateMetadataPath metadataPath0 False of
        Inl err \<Rightarrow> (self, Inl err)
      | Inr metadataPath \<Rightarrow>
          (case FileEntry (now ev) metadataPath
                  (opts\<lparr> opt_compress := Some (default_true (opt_compress opts)),
                         opt_forceZip64Format :=
                           Some (default_false (opt_forceZip64Format opts)) \<rparr>)
           of
             Inl err \<Rightarrow> (self, Inl err)
           | Inr e \<Rightarrow> addEntry ev self (Inr (e, WriteEntryStream readStream))))"

definition addBuffer ::
  "env \<Rightarrow> zipfile \<Rightarrow> buffer \<Rightarrow> jsstring \<Rightarrow> options \<Rightarrow> zipfile \<times> (error + entry)" where
  "addBuffer ev self buf metadataPath0 opts =
     (case validateMetadataPath metadataPath0 False of
        Inl err \<Rightarrow> (self, Inl err)
      | Inr metadataPath \<Rightarrow>
          if int (length buf) > 0x3fffffff then (self, Inl BufferTooLarge)
          else
            let compress_opt = default_true (opt_compress opts);
                crc = crc32Unsigned ev buf 0;
                size = int (length buf);
                buf' = (if compress_opt then deflateRaw ev buf else Inr buf)
            in
            addEntry ev self
              (case buf' of
                 Inl err \<Rightarrow> Inl err
               | Inr b \<Rightarrow>
                   (case FileEntry (now ev) metadataPath
                           (opts\<lparr> opt_compress := Some compress_opt,
                                  opt_forceZip64Format :=
                                    Some (default_false (opt_forceZip64Format opts)),
                                  opt_compressedSize := Some (int (length b)),
                                  opt_crc32 := Some crc,
                                  opt_size := Some size \<rparr>)
                    of
                      Inl err \<Rightarrow> Inl err
                    | Inr e \<Rightarrow> Inr (e, WriteBuffer b))))"

definition addEmptyDirectory ::
  "env \<Rightarrow> zipfile \<Rightarrow> jsstring \<Rightarrow> options \<Rightarrow> zipfile \<times> (error + entry)" where
  "addEmptyDirectory ev self metadataPath0 opts =
     (case validateMetadataPath metadataPath0 True of
        Inl err \<Rightarrow> (self, Inl err)
      | Inr metadataPath \<Rightarrow>
          addEntry ev self
            (case DirectoryEntry (now ev) metadataPath opts of
               Inl err \<Rightarrow> Inl err
             | Inr e \<Rightarrow> Inr (e, WriteNothing)))"

text \<open>\<open>comment.includes(eocdrSignatureBuffer)\<close>: the needle occurs at some position.\<close>

definition eocdrSignatureBuffer :: buffer where
  "eocdrSignatureBuffer = [0x50, 0x4b, 0x05, 0x06]"

fun buffer_includes :: "buffer \<Rightarrow> buffer \<Rightarrow> bool" where
  "buffer_includes [] needle = (needle = [])"
| "buffer_includes (b # bs) needle =
     (take (length needle) (b # bs) = needle \<or> buffer_includes bs needle)"

text \<open>The comment checks at the head of \<open>addCentralDirectoryRecord\<close>.\<close>

definition archive_comment :: "options \<Rightarrow> error + buffer" where
  "archive_comment opts =
     (case opt_comment opts of
        None \<Rightarrow> Inr []
      | Some c \<Rightarrow>
          (case (case c of CommentString s \<Rightarrow> encodeCp437 s | CommentBuffer b \<Rightarrow> Inr b) of
             Inl err \<Rightarrow> Inl err
           | Inr comment \<Rightarrow>
               if int (length comment) > 0xffff then Inl CommentTooLarge
               else if buffer_includes comment eocdrSignatureBuffer then Inl CommentContainsSignature
               else Inr comment))"

text \<open>\<open>entries.forEach(entry => writeBuffer(this, getCentralDirectoryRecord(entry)))\<close>\<close>

fun writeCentralDirectory :: "zipfile \<Rightarrow> entry list \<Rightarrow> zipfile \<times> error option" where
  "writeCentralDirectory self [] = (self, None)"
| "writeCentralDirectory self (e # es) =
     (case getCentralDirectoryRecord e of
        Inl err \<Rightarrow> (self, Some err)
      | Inr b \<Rightarrow> writeCentralDirectory (writeBuffer self b) es)"

text \<open>
  \<open>addCentralDirectoryRecord\<close> chains its task on the queue without storing the new promise
  in \<open>this.queue\<close>; its \<open>catch\<close> handler is attached to the old promise.
\<close>

definition addCentralDirectoryRecord ::
  "zipfile \<Rightarrow> entry list \<Rightarrow> options \<Rightarrow> zipfile \<times> (error + eocd_record)" where
  "addCentralDirectoryRecord self es opts =
     (case queue self of
        None \<Rightarrow> (self, Inl Finalized)
      | Some q \<Rightarrow>
          (case archive_comment opts of
             Inl err \<Rightarrow> (self, Inl err)
           | Inr comment \<Rightarrow>
               (case q of
                  Rejected err \<Rightarrow> (self\<lparr> destroyed := True \<rparr>, Inl err)
                | Pending \<Rightarrow> (self, Inl PromiseNeverSettles)
                | Resolved \<Rightarrow>
                    let self1 = self\<lparr> offsetOfStartOfCentralDirectory :=
                                        Some (outputStreamCursor self) \<rparr>
                    in
                    case writeCentralDirectory self1 es of
                      (self2, Some err) \<Rightarrow> (self2, Inl err)
                    | (self2, None) \<Rightarrow>
                        let r = \<lparr> rec_offsetOfStartOfCentralDirectory = outputStreamCursor self,
                                  rec_forceZip64Format = (opt_forceZip64Format opts = Some True),
                                  rec_comment = comment,
                                  rec_outputStreamCursor = outputStreamCursor self2,
                                  rec_entriesCount = int (length es) \<rparr>
                        in
                        case getEndOfCentralDirectoryRecord r False of
                          Inr (Encoded b) \<Rightarrow> (writeBuffer self2 b, Inr r)
                        | Inr (HowLong n) \<Rightarrow> (self2, Inl OutOfRange)
                        | Inl err \<Rightarrow> (self2, Inl err))))"

text \<open>Method \<open>end\<close> of the class of \<open>lowlevel.js\<close>.\<close>

definition ZipFile_end :: "zipfile \<Rightarrow> zipfile" where
  "ZipFile_end self = self\<lparr> queue := None, ended := True \<rparr>"

text \<open>
  Method \<open>end\<close> of the class of \<open>index.js\<close>: it awaits the central directory task on
  \<open>this.entries\<close> and then calls \<open>end\<close> of the class of \<open>lowlevel.js\<close>.
\<close>

definition index_end :: "zipfile \<Rightarrow> options \<Rightarrow> zipfile \<times> (error + eocd_record)" where
  "index_end self opts =
     (case addCentralDirectoryRecord self (entries self) opts of
        (self', Inl err) \<Rightarrow> (self', Inl err)
      | (self', Inr r) \<Rightarrow> (ZipFile_end self', Inr r))"

text \<open>
  The bytes of a comment argument: the archive comment encodes a string with CP437, the
  file comment of an entry encodes it with UTF-8; a buffer is taken as it is.
\<close>

definition archive_comment_bytes :: "comment_arg \<Rightarrow> error + buffer" where
  "archive_comment_bytes c = (case c of CommentString s \<Rightarrow> encodeCp437 s | CommentBuffer b \<Rightarrow> Inr b)"

definition file_comment_bytes :: "comment_arg \<Rightarrow> buffer" where
  "file_comment_bytes c = (case c of CommentString s \<Rightarrow> utf8_encode s | CommentBuffer b \<Rightarrow> b)"

text \<open>Midnight of 1 January 2023 (UTC), and options for a stored entry of that time.\<close>

definition example_date :: jsdate where
  "example_date = \<lparr> utcFullYear = 2023, utcMonth = 0, utcDate = 1, utcHours = 0,
     utcMinutes = 0, utcSeconds = 0 \<rparr>"

definition example_options :: options where
  "example_options = no_options\<lparr> opt_compress := Some False, opt_mtime := Some example_date \<rparr>"

text \<open>
  The number of bytes a stream delivers, and the number of bytes pushed to the output
  between two states of the archive.
\<close>

definition chunks_length :: "buffer list \<Rightarrow> int" where
  "chunks_length chunks = (\<Sum>chunk\<leftarrow>chunks. int (length chunk))"

definition forwarded :: "zipfile \<Rightarrow> zipfile \<Rightarrow> int" where
  "forwarded before after = int (length (pushed after)) - int (length (pushed before))"




text \<open>
  The entry of the directory \<open>a/\<close> and the archive after \<open>addEmptyDirectory\<close> of \<open>a\<close> on a
  new archive has resolved and the entry has been pushed to \<open>this.entries\<close>; the new archive
  after \<open>end\<close>.
\<close>

definition example_directory :: entry where
  "example_directory = \<lparr>
     utf8FileName = [0x61, 0x2f], lastModFileTime = 0, lastModFileDate = 0x5621,
     externalFileAttributes = 0x41fd0000, crc32 = Some 0,
     uncompressedSize = None, compressedSize = Some 0, compress = False,
     crcAndFileSizeKnown = False, forceZip64Format = False, fileComment = [],
     relativeOffsetOfLocalHeader = Some 0 \<rparr>"

definition example_archive :: zipfile where
  "example_archive = \<lparr> queue = Some Resolved, outputStreamCursor = 48,
     pushed = [80, 75, 3, 4, 20, 0, 8, 8, 0, 0, 0, 0, 33, 86, 0, 0, 0, 0, 0, 0, 0,
        0, 0, 0, 0, 0, 2, 0, 0, 0, 97, 47, 80, 75, 7, 8, 0, 0, 0, 0, 0, 0,
        0, 0, 0, 0, 0, 0],
     ended = False, destroyed = False, offsetOfStartOfCentralDirectory = None,
     uncaughtException = None, entries = [example_directory] \<rparr>"

definition finalized_archive :: zipfile where
  "finalized_archive = \<lparr> queue = None, outputStreamCursor = 22,
     pushed = [80, 75, 5, 6, 0, 0, 0, 0, 0, 0, 0, 0, 0, 0, 0, 0, 0, 0, 0, 0, 0, 0],
     ended = True, destroyed = False, offsetOfStartOfCentralDirectory = Some 0,
     uncaughtException = None, entries = [] \<rparr>"

section \<open>The promise chain\<close>




text \<open>
  The \<open>catch\<close> handler on the queue, for a task that ends with an error; the marker of a
  promise that stays pending leaves the queue pending.
\<close>

definition failTask :: "zipfile \<Rightarrow> error \<Rightarrow> zipfile" where
  "failTask self err =
     (if err = PromiseNeverSettles then self\<lparr> queue := Some Pending \<rparr>
      else self\<lparr> queue := Some (Rejected err), destroyed := True \<rparr>)"















section \<open>Path validation: properties\<close>

lemma replace_backslashes_free: "0x5c \<notin> set (replace_backslashes s)"
  by (auto simp: replace_backslashes_def)

lemma replace_backslashes_Nil [simp]: "replace_backslashes s = [] \<longleftrightarrow> s = []"
  by (simp add: replace_backslashes_def)

text \<open>
  C7.  Path validation.  Writing \<open>q\<close> for the path with every backslash replaced by a slash:
  the call is rejected exactly when the path is empty, \<open>q\<close> starts with a slash or with a
  drive letter and a colon, some slash-separated segment of \<open>q\<close> is \<open>..\<close>, or the call is for
  a file and \<open>q\<close> ends in a slash.  An accepted directory path is \<open>q\<close> with a slash appended
  unless it already ends in one; an accepted file path is \<open>q\<close> itself.  No accepted path
  contains a backslash.
\<close>

theorem validateMetadataPath_spec:
  "(isl (validateMetadataPath p isDirectory) \<longleftrightarrow>
      (p = [] \<or> matches_leading_slash (replace_backslashes p)
       \<or> matches_drive_letter (replace_backslashes p)
       \<or> ascii ''..'' \<in> set (split_on 0x2f (replace_backslashes p))
       \<or> (\<not> isDirectory \<and> matches_trailing_slash (replace_backslashes p))))
   \<and> (\<forall>r. validateMetadataPath p True = Inr r \<longrightarrow>
          r = (if matches_trailing_slash (replace_backslashes p) then replace_backslashes p
               else replace_backslashes p @ ascii ''/''))
   \<and> (\<forall>r. validateMetadataPath p False = Inr r \<longrightarrow>
          r = replace_backslashes p \<and> \<not> matches_trailing_slash r)
   \<and> (\<forall>r. validateMetadataPath p isDirectory = Inr r \<longrightarrow> 0x5c \<notin> set r)"
proof (intro conjI allI impI)
  show "isl (validateMetadataPath p isDirectory) \<longleftrightarrow>
      (p = [] \<or> matches_leading_slash (replace_backslashes p)
       \<or> matches_drive_letter (replace_backslashes p)
       \<or> ascii ''..'' \<in> set (split_on 0x2f (replace_backslashes p))
       \<or> (\<not> isDirectory \<and> matches_trailing_slash (replace_backslashes p)))"
    by (auto simp: validateMetadataPath_def Let_def)
next
  fix r assume "validateMetadataPath p True = Inr r"
  then show "r = (if matches_trailing_slash (replace_backslashes p) then replace_backslashes p
               else replace_backslashes p @ ascii ''/'')"
    by (auto simp: validateMetadataPath_def Let_def split: if_splits)
next
  fix r assume "validateMetadataPath p False = Inr r"
  then show "r = replace_backslashes p"
    by (auto simp: validateMetadataPath_def Let_def split: if_splits)
next
  fix r assume "validateMetadataPath p False = Inr r"
  then show "\<not> matches_trailing_slash r"
    by (auto simp: validateMetadataPath_def Let_def split: if_splits)
next
  fix r assume "validateMetadataPath p isDirectory = Inr r"
  then show "0x5c \<notin> set r"
    using replace_backslashes_free [of p]
    by (auto simp: validateMetadataPath_def Let_def ascii_def split: if_splits)
qed

text \<open>
  The examples of the specification: \<open>a/b\<close> is accepted unchanged as a file and stored as
  \<open>a/b/\<close> as a directory; \<open>/abs/path\<close>, \<open>C:\foo\<close>, \<open>a/../b\<close>, the empty path and the file
  path \<open>a/\<close> are rejected; \<open>a\b\<close> is accepted as \<open>a/b\<close>.
\<close>

theorem validateMetadataPath_spec_witness:
  "validateMetadataPath (ascii ''a/b'') False = Inr (ascii ''a/b'')
   \<and> validateMetadataPath (ascii ''a/b'') True = Inr (ascii ''a/b/'')
   \<and> validateMetadataPath (ascii ''a'' @ [0x5c] @ ascii ''b'') False = Inr (ascii ''a/b'')
   \<and> isl (validateMetadataPath (ascii ''/abs/path'') False)
   \<and> isl (validateMetadataPath (ascii ''C:'' @ [0x5c] @ ascii ''foo'') False)
   \<and> isl (validateMetadataPath (ascii ''a/../b'') True)
   \<and> isl (validateMetadataPath [] True)
   \<and> isl (validateMetadataPath (ascii ''a/'') False)"
  using validateMetadataPath_spec [of "ascii ''a/b''" True]
    validateMetadataPath_spec [of "ascii ''a/b''" False]
    validateMetadataPath_spec [of "ascii ''a'' @ [0x5c] @ ascii ''b''" False]
    validateMetadataPath_spec [of "ascii ''/abs/path''" False]
    validateMetadataPath_spec [of "ascii ''C:'' @ [0x5c] @ ascii ''foo''" False]
    validateMetadataPath_spec [of "ascii ''a/../b''" True]
    validateMetadataPath_spec [of "[]" True]
    validateMetadataPath_spec [of "ascii ''a/''" False]
  by (simp add: validateMetadataPath_def ascii_def replace_backslashes_def
      matches_trailing_slash_def is_ascii_letter_def)

section \<open>The CP437 encoder: properties\<close>

lemma build_reverse_notin: "c \<notin> set cs \<Longrightarrow> build_reverse cs i m c = m c"
  by (induction cs arbitrary: i m) auto

lemma build_reverse_in:
  "c \<in> set cs \<Longrightarrow> \<exists>b. build_reverse cs i m c = Some b \<and> i \<le> b \<and> b < i + length cs \<and> cs ! (b - i) = c"
proof (induction cs arbitrary: i m)
  case Nil
  then show ?case by simp
next
  case (Cons a cs)
  show ?case
  proof (cases "c \<in> set cs")
    case True
    from Cons.IH [OF True, of "i + 1" "m(a \<mapsto> i)"]
    obtain b where b: "build_reverse cs (i + 1) (m(a \<mapsto> i)) c = Some b"
      "i + 1 \<le> b" "b < i + 1 + length cs" "cs ! (b - (i + 1)) = c" by blast
    from b(2) have "b - i = Suc (b - (i + 1))" by simp
    with b(4) have "(a # cs) ! (b - i) = c" by simp
    with b show ?thesis by auto
  next
    case False
    with Cons.prems have "c = a" by simp
    with False show ?thesis by (simp add: build_reverse_notin)
  qed
qed

lemma length_cp437: "length cp437 = 256"
  by (simp add: cp437_def ascii_def)

lemma reverseCp437_Some:
  assumes "c \<in> set cp437"
  shows "\<exists>b. reverseCp437 c = Some b \<and> b < 256 \<and> cp437 ! b = c"
  using build_reverse_in [OF assms, of 0 Map.empty]
  by (auto simp: reverseCp437_def length_cp437)

lemma reverseCp437_None: "c \<notin> set cp437 \<Longrightarrow> reverseCp437 c = None"
  by (simp add: reverseCp437_def build_reverse_notin)

lemma unat_byte_of_nat: "b < 256 \<Longrightarrow> unat (of_nat b :: byte) = b"
  by (simp add: unat_of_nat)

lemma encode_slow_ok:
  "set s \<subseteq> set cp437 \<Longrightarrow>
     \<exists>bs. encode_slow reverseCp437 s = Inr bs \<and> length bs = length s
          \<and> (\<forall>i<length s. cp437 ! unat (bs ! i) = s ! i)"
proof (induction s)
  case Nil
  then show ?case by simp
next
  case (Cons c s)
  then obtain bs where bs: "encode_slow reverseCp437 s = Inr bs" "length bs = length s"
      "\<forall>i<length s. cp437 ! unat (bs ! i) = s ! i" by auto
  from Cons.prems obtain b where b: "reverseCp437 c = Some b" "b < 256" "cp437 ! b = c"
    using reverseCp437_Some [of c] by auto
  have "\<forall>i<length (c # s). cp437 ! unat ((of_nat b # bs) ! i) = (c # s) ! i"
    using bs(3) b by (auto simp: nth_Cons unat_byte_of_nat split: nat.splits)
  with bs b show ?case by simp
qed

lemma encode_slow_fail:
  "\<not> set s \<subseteq> set cp437 \<Longrightarrow> encode_slow reverseCp437 s = Inl NotEncodableCp437"
proof (induction s)
  case Nil
  then show ?case by simp
next
  case (Cons c s)
  show ?case
  proof (cases "c \<in> set cp437")
    case True
    with Cons.prems have "\<not> set s \<subseteq> set cp437" by auto
    with Cons.IH True show ?thesis
      using reverseCp437_Some [of c] by auto
  next
    case False
    then show ?thesis by (simp add: reverseCp437_None)
  qed
qed

lemma utf8_encode_ascii:
  "list_all is_printable_ascii s \<Longrightarrow> utf8_encode s = map of_nat s"
  by (induction s) (auto simp: is_printable_ascii_def)

lemma cp437_ascii_block: "drop 32 (take 127 cp437) = [32..<127]"
  by (simp add: cp437_def ascii_def upt_rec)

lemma cp437_printable:
  assumes "is_printable_ascii c"
  shows "cp437 ! c = c \<and> c \<in> set cp437"
proof -
  from assms have c: "32 \<le> c" "c < 127" by (auto simp: is_printable_ascii_def)
  have "drop 32 (take 127 cp437) ! (c - 32) = [32..<127] ! (c - 32)"
    by (simp only: cp437_ascii_block)
  also have "[32..<127] ! (c - 32) = 32 + (c - 32)"
    using c by (intro nth_upt) simp
  also have "\<dots> = c" using c by simp
  finally have "drop 32 (take 127 cp437) ! (c - 32) = c" .
  moreover have "drop 32 (take 127 cp437) ! (c - 32) = cp437 ! c"
    using c by (simp add: length_cp437 del: upt_conv_Cons)
  ultimately have eq: "cp437 ! c = c" by simp
  from c have "c < length cp437" by (simp add: length_cp437)
  then have "cp437 ! c \<in> set cp437" by (rule nth_mem)
  with eq show ?thesis by simp
qed

text \<open>
  C10.  The CP437 comment encoder.  A string of printable ASCII characters is encoded as one
  byte per character, the byte being the character's code point.  A string whose characters
  all occur in the table is encoded as one byte per character, and the table entry at each
  byte is the character it encodes.  A string with a character that is not in the table is
  refused with the encoding error.
\<close>

theorem encodeCp437_spec:
  "(list_all is_printable_ascii s \<longrightarrow>
      (\<exists>bs. encodeCp437 s = Inr bs \<and> map unat bs = s))
   \<and> (set s \<subseteq> set cp437 \<longrightarrow>
      (\<exists>bs. encodeCp437 s = Inr bs \<and> length bs = length s
            \<and> (\<forall>i<length s. cp437 ! unat (bs ! i) = s ! i)))
   \<and> (\<not> set s \<subseteq> set cp437 \<longrightarrow> encodeCp437 s = Inl NotEncodableCp437)"
proof (intro conjI impI)
  assume p: "list_all is_printable_ascii s"
  then have "map unat (map of_nat s :: buffer) = s"
    by (induction s) (auto simp: is_printable_ascii_def unat_byte_of_nat)
  with p show "\<exists>bs. encodeCp437 s = Inr bs \<and> map unat bs = s"
    by (simp add: encodeCp437_def utf8_encode_ascii)
next
  assume sub: "set s \<subseteq> set cp437"
  show "\<exists>bs. encodeCp437 s = Inr bs \<and> length bs = length s
          \<and> (\<forall>i<length s. cp437 ! unat (bs ! i) = s ! i)"
  proof (cases "list_all is_printable_ascii s")
    case True
    have "\<forall>i<length s. cp437 ! unat ((map of_nat s :: buffer) ! i) = s ! i"
    proof (intro allI impI)
      fix i assume i: "i < length s"
      with True have pr: "is_printable_ascii (s ! i)" by (simp add: list_all_length)
      then have "s ! i < 256" by (simp add: is_printable_ascii_def)
      with pr i show "cp437 ! unat ((map of_nat s :: buffer) ! i) = s ! i"
        by (simp add: unat_byte_of_nat cp437_printable)
    qed
    with True show ?thesis by (simp add: encodeCp437_def utf8_encode_ascii)
  next
    case False
    with encode_slow_ok [OF sub] show ?thesis by (simp add: encodeCp437_def)
  qed
next
  assume ns: "\<not> set s \<subseteq> set cp437"
  then obtain c where c: "c \<in> set s" "c \<notin> set cp437" by auto
  then have "\<not> is_printable_ascii c" using cp437_printable [of c] by auto
  with c have "\<not> list_all is_printable_ascii s" by (auto simp: list_all_iff)
  with encode_slow_fail [OF ns] show "encodeCp437 s = Inl NotEncodableCp437"
    by (simp add: encodeCp437_def)
qed


lemma build_reverse_snoc: "build_reverse (xs @ [c]) i m c = Some (i + length xs)"
  by (induction xs arbitrary: i m) auto

lemma last_cp437: "last cp437 = 160"
  by (simp add: cp437_def)

lemma reverseCp437_last: "reverseCp437 160 = Some 255"
proof -
  have ne: "cp437 \<noteq> []" using length_cp437 by auto
  have "cp437 = butlast cp437 @ [160]"
    using append_butlast_last_id [OF ne] by (simp only: last_cp437)
  then have "reverseCp437 160 = build_reverse (butlast cp437 @ [160]) 0 Map.empty 160"
    by (simp only: reverseCp437_def)
  also have "\<dots> = Some (0 + length (butlast cp437))"
    by (rule build_reverse_snoc)
  finally show ?thesis by (simp add: length_cp437)
qed

lemma euro_not_cp437: "8364 \<notin> set cp437"
  by (simp add: cp437_def ascii_def)

lemma nbsp_in_cp437: "set [160] \<subseteq> set cp437"
proof -
  have "cp437 \<noteq> []" using length_cp437 by auto
  then have "last cp437 \<in> set cp437" by (rule last_in_set)
  then show ?thesis by (simp add: last_cp437)
qed

text \<open>
  At \<open>zip\<close> (fast path), at the no-break space U+00A0 (slow path, table entry 255) and at
  the euro sign U+20AC, which the table lacks.
\<close>

theorem encodeCp437_spec_witness:
  "list_all is_printable_ascii (ascii ''zip'')
   \<and> encodeCp437 (ascii ''zip'') = Inr [0x7a, 0x69, 0x70]
   \<and> set [160] \<subseteq> set cp437 \<and> \<not> list_all is_printable_ascii [160]
   \<and> encodeCp437 [160] = Inr [255] \<and> cp437 ! unat (255 :: byte) = 160
   \<and> \<not> set [8364] \<subseteq> set cp437
   \<and> encodeCp437 [8364] = Inl NotEncodableCp437"
proof -
  have a: "list_all is_printable_ascii (ascii ''zip'')"
    by (simp add: is_printable_ascii_def ascii_def)
  have b: "\<not> set [8364] \<subseteq> set cp437"
    using euro_not_cp437 by simp
  have c: "\<not> list_all is_printable_ascii [160]"
    by (simp add: is_printable_ascii_def)
  have d: "encodeCp437 [160] = Inr [255]"
    using c by (simp add: encodeCp437_def reverseCp437_last)
  from encodeCp437_spec [of "ascii ''zip''"] a
  obtain bs where bs: "encodeCp437 (ascii ''zip'') = Inr bs" "map unat bs = ascii ''zip''"
    by blast
  from a have "encodeCp437 (ascii ''zip'') = Inr [0x7a, 0x69, 0x70]"
    by (simp add: encodeCp437_def ascii_def)
  moreover from encodeCp437_spec [of "[160]"] nbsp_in_cp437 d
  have "cp437 ! unat (255 :: byte) = 160" by auto
  moreover from encodeCp437_spec [of "[8364]"] b
  have "encodeCp437 [8364] = Inl NotEncodableCp437" by blast
  ultimately show ?thesis using a b c d nbsp_in_cp437 by blast
qed

section \<open>Byte encoders: properties\<close>

lemma writeUInt16LE_eq:
  "writeUInt16LE v = (if in_range 0xffff v then Inr (le16 v) else Inl OutOfRange)"
  by (auto simp: writeUInt16LE_def in_range_def le16_def stored_def split: option.splits)

lemma writeUInt32LE_eq:
  "writeUInt32LE v = (if in_range 0xffffffff v then Inr (le32 v) else Inl OutOfRange)"
  by (auto simp: writeUInt32LE_def in_range_def le32_def stored_def split: option.splits)

lemma js_rem_nonneg: "0 \<le> n \<Longrightarrow> js_rem n 0x100000000 = n mod 0x100000000"
  by (cases "n = 0") (simp_all add: js_rem_def)

lemma js_rem_neg: "n < 0 \<Longrightarrow> js_rem n 0x100000000 \<le> 0"
  by (simp add: js_rem_def mult_le_0_iff)

lemma writeUInt64LE_eq:
  "writeUInt64LE v =
     (if in_range 0xffffffffffffffff v then Inr (le64 v) else Inl OutOfRange)"
proof (cases v)
  case None
  then show ?thesis
    by (simp add: writeUInt64LE_def writeUInt32LE_eq in_range_def le64_def le32_def stored_def)
next
  case (Some n)
  show ?thesis
  proof (cases "0 \<le> n")
    case True
    then have "0 \<le> n div 0x100000000" by simp
    moreover have "n div 0x100000000 \<le> 0xffffffff \<longleftrightarrow> n \<le> 0xffffffffffffffff"
      by linarith
    moreover have "0 \<le> n mod 0x100000000" "n mod 0x100000000 \<le> 0xffffffff" by simp_all
    ultimately show ?thesis using Some True
      by (simp add: writeUInt64LE_def writeUInt32LE_eq in_range_def le64_def stored_def
          js_rem_nonneg)
  next
    case False
    then have neg: "n < 0" by simp
    then have "n div 0x100000000 < 0" by simp
    then show ?thesis using Some neg js_rem_neg [OF neg]
      by (auto simp: writeUInt64LE_def writeUInt32LE_eq in_range_def)
  qed
qed


lemma write_all_Inr:
  "write_all ws = Inr bs \<longleftrightarrow> (\<forall>w\<in>set ws. \<not> isl w) \<and> bs = concat (map projr ws)"
proof (induction ws arbitrary: bs)
  case Nil
  then show ?case by auto
next
  case (Cons w ws)
  show ?case
  proof (cases w)
    case (Inl e)
    then show ?thesis by simp
  next
    case (Inr b)
    show ?thesis
    proof (cases "write_all ws")
      case (Inl e)
      with Cons.IH [of "concat (map projr ws)"] Inr show ?thesis by auto
    next
      case r: (Inr cs)
      with Cons.IH [of cs] Inr show ?thesis by auto
    qed
  qed
qed

lemma length_le [simp]: "length (le16 v) = 2" "length (le32 v) = 4" "length (le64 v) = 8"
  by (simp_all add: le16_def le32_def le64_def)

lemma uint_byte: "uint (word_of_int k :: byte) = k mod 0x100"
  by (simp add: uint_word_of_int take_bit_eq_mod)

lemma split16:
  fixes n :: int
  shows "n mod 0x100 + 0x100 * (n div 0x100 mod 0x100) = n mod 0x10000"
  using zmod_zmult2_eq [of 256 n 256] by simp

lemma split32:
  fixes n :: int
  shows "n mod 0x100 + 0x100 * (n div 0x100 mod 0x100)
         + 0x10000 * (n div 0x10000 mod 0x100 + 0x100 * (n div 0x1000000 mod 0x100))
         = n mod 0x100000000"
proof -
  have d: "n div 0x1000000 = n div 0x10000 div 0x100"
    using zdiv_zmult2_eq [of 256 n 65536] by simp
  have hi: "n div 0x10000 mod 0x100 + 0x100 * (n div 0x1000000 mod 0x100)
            = n div 0x10000 mod 0x10000"
    unfolding d by (rule split16)
  have lo: "n mod 0x100 + 0x100 * (n div 0x100 mod 0x100) = n mod 0x10000"
    by (rule split16)
  have "n mod 0x10000 + 0x10000 * (n div 0x10000 mod 0x10000) = n mod 0x100000000"
    using zmod_zmult2_eq [of 65536 n 65536] by simp
  then show ?thesis unfolding hi lo .
qed

lemma u16_at_le16: "in_range 0xffff v \<Longrightarrow> u16_at (le16 v @ ys) 0 = stored v"
proof -
  assume "in_range 0xffff v"
  then have "stored v mod 0x10000 = stored v"
    by (auto simp: in_range_def stored_def split: option.splits)
  then show ?thesis
    using split16 [of "stored v"] by (simp add: u16_at_def le16_def uint_byte)
qed

lemma u32_at_le32: "in_range 0xffffffff v \<Longrightarrow> u32_at (le32 v @ ys) 0 = stored v"
proof -
  assume "in_range 0xffffffff v"
  then have m: "stored v mod 0x100000000 = stored v"
    by (auto simp: in_range_def stored_def split: option.splits)
  define n where "n = stored v"
  have "u32_at (le32 v @ ys) 0
        = uint (word_of_int n :: byte) + 0x100 * uint (word_of_int (n div 0x100) :: byte)
          + 0x10000 * (uint (word_of_int (n div 0x10000) :: byte)
                       + 0x100 * uint (word_of_int (n div 0x1000000) :: byte))"
    by (simp add: u32_at_def u16_at_def le32_def n_def [symmetric] del: uint_word_of_int_eq)
  also have "\<dots> = n mod 0x100 + 0x100 * (n div 0x100 mod 0x100)
         + 0x10000 * (n div 0x10000 mod 0x100 + 0x100 * (n div 0x1000000 mod 0x100))"
    by (simp only: uint_byte)
  also have "\<dots> = n mod 0x100000000" by (rule split32)
  finally show ?thesis using m by (simp only: n_def)
qed

lemma u16_at_append: "length xs \<le> off \<Longrightarrow> u16_at (xs @ ys) off = u16_at ys (off - length xs)"
  by (simp add: u16_at_def nth_append Suc_diff_le)

lemma u32_at_append: "length xs \<le> off \<Longrightarrow> u32_at (xs @ ys) off = u32_at ys (off - length xs)"
proof -
  assume le: "length xs \<le> off"
  then have e: "off + 2 - length xs = off - length xs + 2" by simp
  from le have "length xs \<le> off + 2" by simp
  then have "u16_at (xs @ ys) (off + 2) = u16_at ys (off - length xs + 2)"
    by (simp only: u16_at_append e)
  with le show ?thesis by (simp only: u32_at_def u16_at_append)
qed

lemma u64_at_append: "length xs \<le> off \<Longrightarrow> u64_at (xs @ ys) off = u64_at ys (off - length xs)"
proof -
  assume le: "length xs \<le> off"
  then have e: "off + 4 - length xs = off - length xs + 4" by simp
  from le have "length xs \<le> off + 4" by simp
  then have "u32_at (xs @ ys) (off + 4) = u32_at ys (off - length xs + 4)"
    by (simp only: u32_at_append e)
  with le show ?thesis by (simp only: u64_at_def u32_at_append)
qed

lemma u64_at_le64:
  assumes "in_range 0xffffffffffffffff v"
  shows "u64_at (le64 v @ ys) 0 = stored v"
proof -
  from assms have r: "0 \<le> stored v" "stored v \<le> 0xffffffffffffffff"
    by (auto simp: in_range_def stored_def split: option.splits)
  from r(1) have "0 \<le> stored v div 0x100000000" by simp
  moreover from r(2) have "stored v div 0x100000000 \<le> 0xffffffff" by linarith
  ultimately have hi: "in_range 0xffffffff (Some (stored v div 0x100000000))"
    by (simp add: in_range_def)
  have lo: "in_range 0xffffffff (Some (stored v mod 0x100000000))"
    by (simp add: in_range_def)
  define a where "a = le32 (Some (stored v mod 0x100000000))"
  define b where "b = le32 (Some (stored v div 0x100000000))"
  have la: "length a = 4" by (simp add: a_def le32_def)
  have ab: "le64 v @ ys = a @ (b @ ys)" by (simp add: le64_def a_def b_def)
  have "u32_at (a @ (b @ ys)) (0 + 4) = u32_at (b @ ys) (0 + 4 - length a)"
    by (rule u32_at_append) (simp add: la)
  then have "u32_at (a @ (b @ ys)) (0 + 4) = u32_at (b @ ys) 0" by (simp add: la)
  then have "u64_at (le64 v @ ys) 0 = u32_at (a @ (b @ ys)) 0 + 0x100000000 * u32_at (b @ ys) 0"
    by (simp only: u64_at_def ab)
  also have "u32_at (a @ (b @ ys)) 0 = stored v mod 0x100000000"
    unfolding a_def using u32_at_le32 [OF lo] by (simp add: stored_def)
  also have "u32_at (b @ ys) 0 = stored v div 0x100000000"
    unfolding b_def using u32_at_le32 [OF hi] by (simp add: stored_def)
  finally show ?thesis by simp
qed


lemma in_range_simps [simp]:
  "in_range m None" "in_range m (Some n) \<longleftrightarrow> 0 \<le> n \<and> n \<le> m"
  by (simp_all add: in_range_def)

lemma stored_simps [simp]: "stored None = 0" "stored (Some n) = n"
  by (simp_all add: stored_def)

lemma slice_append:
  "length xs = off \<Longrightarrow> length ys = n \<Longrightarrow> slice (xs @ ys @ zs) off n = ys"
  by (simp add: slice_def)


lemma cdr_normal:
  assumes "getCentralDirectoryRecord e = Inr bs" and "\<not> useZip64Format e"
  shows "normal_fields e bs"
  using assms
  by (auto simp: getCentralDirectoryRecord_def Let_def write_all_Inr writeUInt16LE_eq
      writeUInt32LE_eq normal_fields_def u16_at_append u32_at_append u16_at_le16 u32_at_le32
      split: sum.splits if_splits)


lemma cdr_zip64:
  assumes "getCentralDirectoryRecord e = Inr bs" and "useZip64Format e"
  shows "zip64_fields e bs"
proof -
  define z where "z = le16 (Some 1) @ le16 (Some 24) @ le64 (uncompressedSize e)
                      @ le64 (compressedSize e) @ le64 (relativeOffsetOfLocalHeader e)"
  from assms have r: "in_range 0xffffffffffffffff (uncompressedSize e)"
      "in_range 0xffffffffffffffff (compressedSize e)"
      "in_range 0xffffffffffffffff (relativeOffsetOfLocalHeader e)"
    by (auto simp: getCentralDirectoryRecord_def Let_def write_all_Inr writeUInt64LE_eq
        split: sum.splits if_splits)
  have lz: "length z = 28" by (simp add: z_def)
  have zf: "u16_at z 0 = 1" "u16_at z 2 = 24" "u64_at z 4 = stored (uncompressedSize e)"
      "u64_at z 12 = stored (compressedSize e)"
      "u64_at z 20 = stored (relativeOffsetOfLocalHeader e)"
    using r u64_at_le64 [of _ "[]"] u16_at_le16 [of _ "[]"]
    by (simp_all add: z_def u16_at_append u64_at_append u16_at_le16 u64_at_le64)
  from assms r obtain fixed where
    f: "bs = fixed @ utf8FileName e @ z @ fileComment e" "length fixed = 46"
       "u16_at (fixed @ utf8FileName e @ z @ fileComment e) 6 = 45"
       "u32_at (fixed @ utf8FileName e @ z @ fileComment e) 20 = 0xffffffff"
       "u32_at (fixed @ utf8FileName e @ z @ fileComment e) 24 = 0xffffffff"
       "u32_at (fixed @ utf8FileName e @ z @ fileComment e) 42 = 0xffffffff"
       "u16_at (fixed @ utf8FileName e @ z @ fileComment e) 30 = 28"
    by (auto simp: getCentralDirectoryRecord_def Let_def write_all_Inr writeUInt16LE_eq
        writeUInt32LE_eq writeUInt64LE_eq z_def u16_at_append u32_at_append u16_at_le16
        u32_at_le32 split: sum.splits if_splits)
  have "slice bs (46 + length (utf8FileName e)) 28 = z"
    unfolding f(1) using slice_append [of "fixed @ utf8FileName e" _ z 28 "fileComment e"]
    by (simp add: f(2) lz)
  with f zf lz show ?thesis by (simp add: zip64_fields_def)
qed


lemma write_all_isl: "isl (write_all ws) \<longleftrightarrow> (\<exists>w\<in>set ws. isl w)"
  by (induction ws) (auto split: sum.splits)

lemma write_all_ok:
  assumes "\<forall>w\<in>set ws. \<not> isl w"
  shows "write_all ws = Inr (concat (map projr ws))"
  using assms by (simp add: write_all_Inr)

lemma cdr_shape:
  assumes "getCentralDirectoryRecord e = Inr bs"
  shows "(zip64_fields e bs \<longleftrightarrow> useZip64Format e)
         \<and> (normal_fields e bs \<longleftrightarrow> \<not> useZip64Format e)"
proof (cases "useZip64Format e")
  case True
  from cdr_zip64 [OF assms True] have z: "zip64_fields e bs" .
  then have "u16_at bs 6 = 45" by (simp add: zip64_fields_def)
  then have "\<not> normal_fields e bs" by (simp add: normal_fields_def)
  with z True show ?thesis by simp
next
  case False
  from cdr_normal [OF assms False] have n: "normal_fields e bs" .
  then have "u16_at bs 6 = 20" by (simp add: normal_fields_def)
  then have "\<not> zip64_fields e bs" by (simp add: zip64_fields_def)
  with n False show ?thesis by simp
qed

lemma cdr_fits:
  assumes "getCentralDirectoryRecord e = Inr bs"
  shows "cdr_fields_fit e"
  using assms
  by (auto simp: getCentralDirectoryRecord_def Let_def write_all_Inr writeUInt16LE_eq
      writeUInt32LE_eq writeUInt64LE_eq cdr_fields_fit_def
      split: sum.splits if_splits)

lemma cdr_emitted:
  assumes "cdr_fields_fit e"
  shows "\<exists>bs. getCentralDirectoryRecord e = Inr bs"
proof -
  have g: "in_range 0xffff (Some (generalPurposeBitFlag e))"
    "in_range 0xffff (Some (compression_method e))"
    "in_range 0xffff (Some (push_bit 8 3 OR 63))"
    by (simp_all add: generalPurposeBitFlag_def compression_method_def)
  show ?thesis
  proof (cases "useZip64Format e")
    case True
    with assms have "\<forall>w\<in>set [
                 writeUInt16LE (Some 0x0001),
                 writeUInt16LE (Some (28 - 4)),
                 writeUInt64LE (uncompressedSize e),
                 writeUInt64LE (compressedSize e),
                 writeUInt64LE (relativeOffsetOfLocalHeader e)]. \<not> isl w"
      by (simp add: writeUInt16LE_eq writeUInt64LE_eq cdr_fields_fit_def)
    from write_all_ok [OF this] obtain z where z: "write_all [
                 writeUInt16LE (Some 0x0001),
                 writeUInt16LE (Some (28 - 4)),
                 writeUInt64LE (uncompressedSize e),
                 writeUInt64LE (compressedSize e),
                 writeUInt64LE (relativeOffsetOfLocalHeader e)] = Inr z"
      by blast
    then have lz: "length z = 28"
      by (auto simp: write_all_Inr writeUInt16LE_eq writeUInt64LE_eq split: if_splits)
    from assms True g have "\<forall>w\<in>set [
                  writeUInt32LE (Some 0x02014b50),
                  writeUInt16LE (Some (push_bit 8 3 OR 63)),
                  writeUInt16LE (Some 45),
                  writeUInt16LE (Some (generalPurposeBitFlag e)),
                  writeUInt16LE (Some (compression_method e)),
                  writeUInt16LE (Some (lastModFileTime e)),
                  writeUInt16LE (Some (lastModFileDate e)),
                  writeUInt32LE (crc32 e),
                  writeUInt32LE (Some 0xffffffff),
                  writeUInt32LE (Some 0xffffffff),
                  writeUInt16LE (Some (int (length (utf8FileName e)))),
                  writeUInt16LE (Some (int (length z))),
                  writeUInt16LE (Some (int (length (fileComment e)))),
                  writeUInt16LE (Some 0),
                  writeUInt16LE (Some 0),
                  writeUInt32LE (Some (externalFileAttributes e)),
                  writeUInt32LE (Some 0xffffffff)]. \<not> isl w"
      by (simp add: lz writeUInt16LE_eq writeUInt32LE_eq cdr_fields_fit_def)
    from write_all_ok [OF this] show ?thesis
      using True z
      by (simp add: getCentralDirectoryRecord_def Let_def del: write_all.simps)
  next
    case False
    with assms g have "\<forall>w\<in>set [
                  writeUInt32LE (Some 0x02014b50),
                  writeUInt16LE (Some (push_bit 8 3 OR 63)),
                  writeUInt16LE (Some 20),
                  writeUInt16LE (Some (generalPurposeBitFlag e)),
                  writeUInt16LE (Some (compression_method e)),
                  writeUInt16LE (Some (lastModFileTime e)),
                  writeUInt16LE (Some (lastModFileDate e)),
                  writeUInt32LE (crc32 e),
                  writeUInt32LE (compressedSize e),
                  writeUInt32LE (uncompressedSize e),
                  writeUInt16LE (Some (int (length (utf8FileName e)))),
                  writeUInt16LE (Some (int (length ([] :: buffer)))),
                  writeUInt16LE (Some (int (length (fileComment e)))),
                  writeUInt16LE (Some 0),
                  writeUInt16LE (Some 0),
                  writeUInt32LE (Some (externalFileAttributes e)),
                  writeUInt32LE (relativeOffsetOfLocalHeader e)]. \<not> isl w"
      by (simp add: writeUInt16LE_eq writeUInt32LE_eq cdr_fields_fit_def)
    from write_all_ok [OF this] show ?thesis
      using False
      by (simp add: getCentralDirectoryRecord_def Let_def del: write_all.simps)
  qed
qed

text \<open>
  C1.  The central directory record of an entry is emitted exactly when the entry's values
  fit the fields they are written to.  Whenever it is emitted, it has the ZIP64 shape (both
  sizes and the local header offset stored as \<open>0xffffffff\<close>, version needed 45, and a
  28-byte extra field with tag 1, size 24 and the three true values as 8-byte fields) exactly
  when \<open>forceZip64Format\<close> is set or one of uncompressed size, compressed size and local
  header offset is greater than \<open>0xfffffffe\<close>; otherwise it has the normal shape (the three
  values in the 32-bit fields, version needed 20, no extra field).
\<close>

theorem central_directory_zip64_exact:
  "((\<exists>bs. getCentralDirectoryRecord e = Inr bs) \<longleftrightarrow> cdr_fields_fit e)
   \<and> (\<forall>bs. getCentralDirectoryRecord e = Inr bs \<longrightarrow>
          (zip64_fields e bs \<longleftrightarrow>
             (forceZip64Format e
              \<or> js_gt (uncompressedSize e) 0xfffffffe
              \<or> js_gt (compressedSize e) 0xfffffffe
              \<or> js_gt (relativeOffsetOfLocalHeader e) 0xfffffffe))
          \<and> (normal_fields e bs \<longleftrightarrow>
             \<not> (forceZip64Format e
              \<or> js_gt (uncompressedSize e) 0xfffffffe
              \<or> js_gt (compressedSize e) 0xfffffffe
              \<or> js_gt (relativeOffsetOfLocalHeader e) 0xfffffffe)))"
proof (intro conjI allI impI)
  show "(\<exists>bs. getCentralDirectoryRecord e = Inr bs) \<longleftrightarrow> cdr_fields_fit e"
    using cdr_fits cdr_emitted by blast
next
  fix bs assume a: "getCentralDirectoryRecord e = Inr bs"
  from cdr_shape [OF a]
  show "zip64_fields e bs \<longleftrightarrow>
             (forceZip64Format e
              \<or> js_gt (uncompressedSize e) 0xfffffffe
              \<or> js_gt (compressedSize e) 0xfffffffe
              \<or> js_gt (relativeOffsetOfLocalHeader e) 0xfffffffe)"
    and "normal_fields e bs \<longleftrightarrow>
             \<not> (forceZip64Format e
              \<or> js_gt (uncompressedSize e) 0xfffffffe
              \<or> js_gt (compressedSize e) 0xfffffffe
              \<or> js_gt (relativeOffsetOfLocalHeader e) 0xfffffffe)"
    by (simp_all add: useZip64Format_def)
qed

lemmas cdr_eval = getCentralDirectoryRecord_def example_entry_def useZip64Format_def js_gt_def
  writeUInt16LE_def writeUInt32LE_def writeUInt64LE_def js_rem_def generalPurposeBitFlag_def
  compression_method_def Let_def

lemma cdr_example_normal:
  "getCentralDirectoryRecord (example_entry (Some 0xfffffffe) False) =
     Inr [80, 75, 1, 2, 63, 3, 20, 0, 8, 8, 0, 0, 0, 0, 33, 0, 0, 0, 0, 0, 5, 0,
      0, 0, 254, 255, 255, 255, 1, 0, 0, 0, 0, 0, 0, 0, 0, 0, 0, 0, 180,
      129, 0, 0, 0, 0, 97]"
  by (simp add: cdr_eval)

lemma cdr_example_zip64:
  "getCentralDirectoryRecord (example_entry (Some 0xffffffff) False) =
     Inr [80, 75, 1, 2, 63, 3, 45, 0, 8, 8, 0, 0, 0, 0, 33, 0, 0, 0, 0, 0, 255,
      255, 255, 255, 255, 255, 255, 255, 1, 0, 28, 0, 0, 0, 0, 0, 0, 0, 0,
      0, 180, 129, 255, 255, 255, 255, 97, 1, 0, 24, 0, 255, 255, 255, 255,
      0, 0, 0, 0, 5, 0, 0, 0, 0, 0, 0, 0, 0, 0, 0, 0, 0, 0, 0, 0]"
  by (simp add: cdr_eval)

lemma cdr_example_forced:
  "getCentralDirectoryRecord (example_entry (Some 7) True) =
     Inr [80, 75, 1, 2, 63, 3, 45, 0, 8, 8, 0, 0, 0, 0, 33, 0, 0, 0, 0, 0, 255,
      255, 255, 255, 255, 255, 255, 255, 1, 0, 28, 0, 0, 0, 0, 0, 0, 0, 0,
      0, 180, 129, 255, 255, 255, 255, 97, 1, 0, 24, 0, 7, 0, 0, 0, 0, 0, 0,
      0, 5, 0, 0, 0, 0, 0, 0, 0, 0, 0, 0, 0, 0, 0, 0, 0]"
  by (simp add: cdr_eval)

text \<open>
  At an uncompressed size of exactly \<open>0xfffffffe\<close> the record is emitted with normal fields;
  at \<open>0xffffffff\<close>, and at size 7 with \<open>forceZip64Format\<close>, it is emitted with ZIP64 fields.
  The byte lists are the records the encoder returns.
\<close>

theorem central_directory_zip64_exact_witness:
  "cdr_fields_fit (example_entry (Some 0xfffffffe) False)
   \<and> getCentralDirectoryRecord (example_entry (Some 0xfffffffe) False) =
       Inr [80, 75, 1, 2, 63, 3, 20, 0, 8, 8, 0, 0, 0, 0, 33, 0, 0, 0, 0, 0, 5, 0,
        0, 0, 254, 255, 255, 255, 1, 0, 0, 0, 0, 0, 0, 0, 0, 0, 0, 0, 180,
        129, 0, 0, 0, 0, 97]
   \<and> normal_fields (example_entry (Some 0xfffffffe) False)
       [80, 75, 1, 2, 63, 3, 20, 0, 8, 8, 0, 0, 0, 0, 33, 0, 0, 0, 0, 0, 5, 0,
        0, 0, 254, 255, 255, 255, 1, 0, 0, 0, 0, 0, 0, 0, 0, 0, 0, 0, 180,
        129, 0, 0, 0, 0, 97]
   \<and> cdr_fields_fit (example_entry (Some 0xffffffff) False)
   \<and> getCentralDirectoryRecord (example_entry (Some 0xffffffff) False) =
       Inr [80, 75, 1, 2, 63, 3, 45, 0, 8, 8, 0, 0, 0, 0, 33, 0, 0, 0, 0, 0, 255,
        255, 255, 255, 255, 255, 255, 255, 1, 0, 28, 0, 0, 0, 0, 0, 0, 0, 0,
        0, 180, 129, 255, 255, 255, 255, 97, 1, 0, 24, 0, 255, 255, 255, 255,
        0, 0, 0, 0, 5, 0, 0, 0, 0, 0, 0, 0, 0, 0, 0, 0, 0, 0, 0, 0]
   \<and> zip64_fields (example_entry (Some 0xffffffff) False)
       [80, 75, 1, 2, 63, 3, 45, 0, 8, 8, 0, 0, 0, 0, 33, 0, 0, 0, 0, 0, 255,
        255, 255, 255, 255, 255, 255, 255, 1, 0, 28, 0, 0, 0, 0, 0, 0, 0, 0,
        0, 180, 129, 255, 255, 255, 255, 97, 1, 0, 24, 0, 255, 255, 255, 255,
        0, 0, 0, 0, 5, 0, 0, 0, 0, 0, 0, 0, 0, 0, 0, 0, 0, 0, 0, 0]
   \<and> cdr_fields_fit (example_entry (Some 7) True)
   \<and> getCentralDirectoryRecord (example_entry (Some 7) True) =
       Inr [80, 75, 1, 2, 63, 3, 45, 0, 8, 8, 0, 0, 0, 0, 33, 0, 0, 0, 0, 0, 255,
        255, 255, 255, 255, 255, 255, 255, 1, 0, 28, 0, 0, 0, 0, 0, 0, 0, 0,
        0, 180, 129, 255, 255, 255, 255, 97, 1, 0, 24, 0, 7, 0, 0, 0, 0, 0, 0,
        0, 5, 0, 0, 0, 0, 0, 0, 0, 0, 0, 0, 0, 0, 0, 0, 0]
   \<and> zip64_fields (example_entry (Some 7) True)
       [80, 75, 1, 2, 63, 3, 45, 0, 8, 8, 0, 0, 0, 0, 33, 0, 0, 0, 0, 0, 255,
        255, 255, 255, 255, 255, 255, 255, 1, 0, 28, 0, 0, 0, 0, 0, 0, 0, 0,
        0, 180, 129, 255, 255, 255, 255, 97, 1, 0, 24, 0, 7, 0, 0, 0, 0, 0, 0,
        0, 5, 0, 0, 0, 0, 0, 0, 0, 0, 0, 0, 0, 0, 0, 0, 0]"
proof -
  note t1 = central_directory_zip64_exact [of "example_entry (Some 0xfffffffe) False"]
  note t2 = central_directory_zip64_exact [of "example_entry (Some 0xffffffff) False"]
  note t3 = central_directory_zip64_exact [of "example_entry (Some 7) True"]
  have f1: "cdr_fields_fit (example_entry (Some 0xfffffffe) False)"
    using t1 cdr_example_normal by blast
  have f2: "cdr_fields_fit (example_entry (Some 0xffffffff) False)"
    using t2 cdr_example_zip64 by blast
  have f3: "cdr_fields_fit (example_entry (Some 7) True)"
    using t3 cdr_example_forced by blast
  have c1: "\<not> (forceZip64Format (example_entry (Some 0xfffffffe) False)
              \<or> js_gt (uncompressedSize (example_entry (Some 0xfffffffe) False)) 0xfffffffe
              \<or> js_gt (compressedSize (example_entry (Some 0xfffffffe) False)) 0xfffffffe
              \<or> js_gt (relativeOffsetOfLocalHeader (example_entry (Some 0xfffffffe) False))
                   0xfffffffe)"
    by (simp add: example_entry_def js_gt_def)
  have c2: "js_gt (uncompressedSize (example_entry (Some 0xffffffff) False)) 0xfffffffe"
    by (simp add: example_entry_def js_gt_def)
  have c3: "forceZip64Format (example_entry (Some 7) True)"
    by (simp add: example_entry_def)
  have s1: "normal_fields (example_entry (Some 0xfffffffe) False)
       [80, 75, 1, 2, 63, 3, 20, 0, 8, 8, 0, 0, 0, 0, 33, 0, 0, 0, 0, 0, 5, 0,
        0, 0, 254, 255, 255, 255, 1, 0, 0, 0, 0, 0, 0, 0, 0, 0, 0, 0, 180,
        129, 0, 0, 0, 0, 97]"
    using t1 cdr_example_normal c1 by blast
  have s2: "zip64_fields (example_entry (Some 0xffffffff) False)
       [80, 75, 1, 2, 63, 3, 45, 0, 8, 8, 0, 0, 0, 0, 33, 0, 0, 0, 0, 0, 255,
        255, 255, 255, 255, 255, 255, 255, 1, 0, 28, 0, 0, 0, 0, 0, 0, 0, 0,
        0, 180, 129, 255, 255, 255, 255, 97, 1, 0, 24, 0, 255, 255, 255, 255,
        0, 0, 0, 0, 5, 0, 0, 0, 0, 0, 0, 0, 0, 0, 0, 0, 0, 0, 0, 0]"
    using t2 cdr_example_zip64 c2 by blast
  have s3: "zip64_fields (example_entry (Some 7) True)
       [80, 75, 1, 2, 63, 3, 45, 0, 8, 8, 0, 0, 0, 0, 33, 0, 0, 0, 0, 0, 255,
        255, 255, 255, 255, 255, 255, 255, 1, 0, 28, 0, 0, 0, 0, 0, 0, 0, 0,
        0, 180, 129, 255, 255, 255, 255, 97, 1, 0, 24, 0, 7, 0, 0, 0, 0, 0, 0,
        0, 5, 0, 0, 0, 0, 0, 0, 0, 0, 0, 0, 0, 0, 0, 0, 0]"
    using t3 cdr_example_forced c3 by blast
  from f1 f2 f3 s1 s2 s3 cdr_example_normal cdr_example_zip64 cdr_example_forced
  show ?thesis by blast
qed

lemma needZip64Format_iff: "needZip64Format r \<longleftrightarrow> eocd_condition r"
  by (auto simp: needZip64Format_def eocd_condition_def)

lemma eocdr_classic:
  assumes "getEndOfCentralDirectoryRecord r False = Inr (Encoded bs)" and "\<not> eocd_condition r"
  shows "eocd_classic r bs"
  using assms
  by (auto simp: getEndOfCentralDirectoryRecord_def Let_def write_all_Inr writeUInt16LE_eq
      writeUInt32LE_eq needZip64Format_iff eocd_classic_def eocd_condition_def
      u16_at_append u32_at_append u16_at_le16 u32_at_le32
      split: sum.splits if_splits)


lemma eocdr_zip64:
  assumes "getEndOfCentralDirectoryRecord r False = Inr (Encoded bs)" and "eocd_condition r"
  shows "eocd_zip64 r bs"
proof -
  define count where "count = rec_entriesCount r"
  define off where "off = rec_offsetOfStartOfCentralDirectory r"
  define size where "size = rec_outputStreamCursor r - off"
  define c where "c = le32 (Some 0x06054b50) @ le16 (Some 0) @ le16 (Some 0)
      @ le16 (Some (if rec_forceZip64Format r \<or> count \<ge> 0xffff then 0xffff else count))
      @ le16 (Some (if rec_forceZip64Format r \<or> count \<ge> 0xffff then 0xffff else count))
      @ le32 (Some (if rec_forceZip64Format r \<or> size \<ge> 0xffffffff then 0xffffffff else size))
      @ le32 (Some (if rec_forceZip64Format r \<or> off \<ge> 0xffffffff then 0xffffffff else off))
      @ le16 (Some (int (length (rec_comment r)))) @ rec_comment r"
  define z where "z = le32 (Some 0x06064b50) @ le64 (Some 44) @ le16 (Some 831)
      @ le16 (Some 45) @ le32 (Some 0) @ le32 (Some 0) @ le64 (Some count) @ le64 (Some count)
      @ le64 (Some size) @ le64 (Some off)"
  define l where "l = le32 (Some 0x07064b50) @ le32 (Some 0)
      @ le64 (Some (rec_outputStreamCursor r)) @ le32 (Some 1)"
  from assms have bs: "bs = z @ l @ c"
    and rg: "in_range 0xffffffffffffffff (Some count)" "in_range 0xffffffffffffffff (Some size)"
      "in_range 0xffffffffffffffff (Some off)"
      "in_range 0xffffffffffffffff (Some (rec_outputStreamCursor r))"
      "in_range 0xffff (Some (if rec_forceZip64Format r \<or> count \<ge> 0xffff then 0xffff else count))"
      "in_range 0xffffffff
         (Some (if rec_forceZip64Format r \<or> size \<ge> 0xffffffff then 0xffffffff else size))"
      "in_range 0xffffffff
         (Some (if rec_forceZip64Format r \<or> off \<ge> 0xffffffff then 0xffffffff else off))"
    by (auto simp: getEndOfCentralDirectoryRecord_def Let_def write_all_Inr writeUInt16LE_eq
        writeUInt32LE_eq writeUInt64LE_eq needZip64Format_iff z_def l_def c_def count_def
        size_def off_def split: sum.splits if_splits)
  have lz: "length z = 56" and ll: "length l = 20"
    and lc: "length c = 22 + length (rec_comment r)"
    by (simp_all add: z_def l_def c_def)
  have zf: "u32_at (z @ l @ c) 0 = 0x06064b50" "u64_at (z @ l @ c) 24 = count"
      "u64_at (z @ l @ c) 32 = count" "u64_at (z @ l @ c) 40 = size"
      "u64_at (z @ l @ c) 48 = off"
    using rg(1-3)
    by (simp_all add: z_def u32_at_append u64_at_append u32_at_le32 u64_at_le64)
  have lf: "u32_at (l @ c) 0 = 0x07064b50" "u64_at (l @ c) 8 = rec_outputStreamCursor r"
    using rg(4)
    by (simp_all add: l_def u32_at_append u64_at_append u32_at_le32 u64_at_le64)
  have cf: "u32_at c 0 = 0x06054b50"
      "u16_at c 8 = (if rec_forceZip64Format r \<or> count \<ge> 0xffff then 0xffff else count)"
      "u16_at c 10 = (if rec_forceZip64Format r \<or> count \<ge> 0xffff then 0xffff else count)"
      "u32_at c 12 = (if rec_forceZip64Format r \<or> size \<ge> 0xffffffff then 0xffffffff else size)"
      "u32_at c 16 = (if rec_forceZip64Format r \<or> off \<ge> 0xffffffff then 0xffffffff else off)"
    using rg(5-7)
    by (simp_all add: c_def u16_at_append u32_at_append u16_at_le16 u32_at_le32)
  have sh: "u32_at (z @ l @ c) 56 = u32_at (l @ c) 0"
      "u64_at (z @ l @ c) 64 = u64_at (l @ c) 8"
      "u32_at (z @ l @ c) 76 = u32_at c 0"
      "u16_at (z @ l @ c) 84 = u16_at c 8"
      "u16_at (z @ l @ c) 86 = u16_at c 10"
      "u32_at (z @ l @ c) 88 = u32_at c 12"
      "u32_at (z @ l @ c) 92 = u32_at c 16"
    by (simp_all add: u16_at_append u32_at_append u64_at_append lz ll)
  show ?thesis
    unfolding eocd_zip64_def bs
    using zf lf cf lz ll lc
    by (simp add: sh count_def size_def off_def)
qed

lemma eocdr_fits:
  assumes "getEndOfCentralDirectoryRecord r False = Inr (Encoded bs)"
  shows "eocd_fields_fit r"
  using assms
  by (auto simp: getEndOfCentralDirectoryRecord_def Let_def write_all_Inr writeUInt16LE_eq
      writeUInt32LE_eq writeUInt64LE_eq needZip64Format_iff eocd_fields_fit_def
      eocd_condition_def split: sum.splits if_splits)

lemma eocdr_emitted:
  assumes "eocd_fields_fit r"
  shows "\<exists>bs. getEndOfCentralDirectoryRecord r False = Inr (Encoded bs)"
proof -
  have g: "in_range 0xffff (Some (push_bit 8 3 OR 63))" by simp
  from assms have "\<forall>w\<in>set [
               writeUInt32LE (Some 0x06054b50),
               writeUInt16LE (Some 0),
               writeUInt16LE (Some 0),
               writeUInt16LE (Some (if rec_forceZip64Format r \<or> rec_entriesCount r \<ge> 0xffff
                                    then 0xffff else rec_entriesCount r)),
               writeUInt16LE (Some (if rec_forceZip64Format r \<or> rec_entriesCount r \<ge> 0xffff
                                    then 0xffff else rec_entriesCount r)),
               writeUInt32LE (Some (if rec_forceZip64Format r
                   \<or> rec_outputStreamCursor r - rec_offsetOfStartOfCentralDirectory r
                       \<ge> 0xffffffff
                 then 0xffffffff
                 else rec_outputStreamCursor r - rec_offsetOfStartOfCentralDirectory r)),
               writeUInt32LE (Some (if rec_forceZip64Format r
                   \<or> rec_offsetOfStartOfCentralDirectory r \<ge> 0xffffffff
                 then 0xffffffff else rec_offsetOfStartOfCentralDirectory r)),
               writeUInt16LE (Some (int (length (rec_comment r)))),
               Inr (rec_comment r)]. \<not> isl w"
    by (simp add: writeUInt16LE_eq writeUInt32LE_eq eocd_fields_fit_def)
  note c = write_all_ok [OF this]
  show ?thesis
  proof (cases "eocd_condition r")
    case False
    then show ?thesis
      using c
      by (simp add: getEndOfCentralDirectoryRecord_def Let_def needZip64Format_iff
          del: write_all.simps)
  next
    case True
    from assms True g have "\<forall>w\<in>set [
                      writeUInt32LE (Some 0x06064b50),
                      writeUInt64LE (Some (56 - 12)),
                      writeUInt16LE (Some (push_bit 8 3 OR 63)),
                      writeUInt16LE (Some 45),
                      writeUInt32LE (Some 0),
                      writeUInt32LE (Some 0),
                      writeUInt64LE (Some (rec_entriesCount r)),
                      writeUInt64LE (Some (rec_entriesCount r)),
                      writeUInt64LE (Some (rec_outputStreamCursor r
                                           - rec_offsetOfStartOfCentralDirectory r)),
                      writeUInt64LE (Some (rec_offsetOfStartOfCentralDirectory r))]. \<not> isl w"
      by (simp add: writeUInt16LE_eq writeUInt32LE_eq writeUInt64LE_eq eocd_fields_fit_def)
    note z = write_all_ok [OF this]
    from assms True have "\<forall>w\<in>set [
                           writeUInt32LE (Some 0x07064b50),
                           writeUInt32LE (Some 0),
                           writeUInt64LE (Some (rec_outputStreamCursor r)),
                           writeUInt32LE (Some 1)]. \<not> isl w"
      by (simp add: writeUInt32LE_eq writeUInt64LE_eq eocd_fields_fit_def)
    note l = write_all_ok [OF this]
    show ?thesis
      using True c z l
      by (simp add: getEndOfCentralDirectoryRecord_def Let_def needZip64Format_iff
          del: write_all.simps)
  qed
qed

text \<open>
  C2, as the code has it.  The end-of-central-directory structure is written exactly when
  the values of the record fit their fields.  It is the ZIP64 variant (ZIP64 record with the
  true 8-byte counts, size and offset, the locator with the offset of the ZIP64 record, then
  the classic record, in which the entry count is capped at \<open>0xffff\<close> and size and offset at
  \<open>0xffffffff\<close> where they reach their thresholds or the format is forced) exactly when
  \<open>forceZip64Format\<close> is set, the entry count is at least \<open>0xffff\<close>, the size of the central
  directory is at least \<open>0xffffffff\<close>, or its start offset is at least \<open>0xffffffff\<close>;
  otherwise it is the classic record alone with the true values.  The length the encoder
  reports is 98 or 22 accordingly.
\<close>

theorem end_of_central_directory_zip64_exact:
  "((\<exists>bs. getEndOfCentralDirectoryRecord r False = Inr (Encoded bs)) \<longleftrightarrow> eocd_fields_fit r)
   \<and> (\<forall>bs. getEndOfCentralDirectoryRecord r False = Inr (Encoded bs) \<longrightarrow>
          (eocd_zip64 r bs \<longleftrightarrow>
             (rec_forceZip64Format r
              \<or> rec_entriesCount r \<ge> 0xffff
              \<or> rec_outputStreamCursor r - rec_offsetOfStartOfCentralDirectory r \<ge> 0xffffffff
              \<or> rec_offsetOfStartOfCentralDirectory r \<ge> 0xffffffff))
          \<and> (eocd_classic r bs \<longleftrightarrow>
             \<not> (rec_forceZip64Format r
              \<or> rec_entriesCount r \<ge> 0xffff
              \<or> rec_outputStreamCursor r - rec_offsetOfStartOfCentralDirectory r \<ge> 0xffffffff
              \<or> rec_offsetOfStartOfCentralDirectory r \<ge> 0xffffffff)))
   \<and> getEndOfCentralDirectoryRecord r True =
       Inr (HowLong
         (if rec_forceZip64Format r
             \<or> rec_entriesCount r \<ge> 0xffff
             \<or> rec_outputStreamCursor r - rec_offsetOfStartOfCentralDirectory r \<ge> 0xffffffff
             \<or> rec_offsetOfStartOfCentralDirectory r \<ge> 0xffffffff
          then 98 else 22))"
proof -
  have em: "(\<exists>bs. getEndOfCentralDirectoryRecord r False = Inr (Encoded bs))
            \<longleftrightarrow> eocd_fields_fit r"
    using eocdr_fits eocdr_emitted by blast
  have hl: "getEndOfCentralDirectoryRecord r True
        = Inr (HowLong (if eocd_condition r then 98 else 22))"
    by (simp add: getEndOfCentralDirectoryRecord_def Let_def needZip64Format_iff)
  have sh: "(eocd_zip64 r bs \<longleftrightarrow> eocd_condition r)
            \<and> (eocd_classic r bs \<longleftrightarrow> \<not> eocd_condition r)"
    if a: "getEndOfCentralDirectoryRecord r False = Inr (Encoded bs)" for bs
  proof (cases "eocd_condition r")
    case True
    from eocdr_zip64 [OF a True] have z: "eocd_zip64 r bs" .
    then have "u32_at bs 0 = 0x06064b50" by (simp add: eocd_zip64_def)
    then have "\<not> eocd_classic r bs" by (simp add: eocd_classic_def)
    with z True show ?thesis by simp
  next
    case False
    from eocdr_classic [OF a False] have c: "eocd_classic r bs" .
    then have "u32_at bs 0 = 0x06054b50" by (simp add: eocd_classic_def)
    then have "\<not> eocd_zip64 r bs" by (simp add: eocd_zip64_def)
    with c False show ?thesis by simp
  qed
  from em hl sh show ?thesis
    unfolding eocd_condition_def by blast
qed

lemmas eocdr_eval = getEndOfCentralDirectoryRecord_def example_record_def needZip64Format_def
  writeUInt16LE_def writeUInt32LE_def writeUInt64LE_def js_rem_def Let_def

lemma eocdr_example_classic:
  "getEndOfCentralDirectoryRecord (example_record 0xfffffffe) False =
     Inr (Encoded [80, 75, 5, 6, 0, 0, 0, 0, 64, 156, 64, 156, 254, 255, 255, 255,
        0, 148, 53, 119, 0, 0])"
  by (simp add: eocdr_eval)

lemma eocdr_example_zip64:
  "getEndOfCentralDirectoryRecord (example_record 0xffffffff) False =
     Inr (Encoded
       [80, 75, 6, 6, 44, 0, 0, 0, 0, 0, 0, 0, 63, 3, 45, 0, 0, 0, 0, 0, 0, 0, 0, 0,
        64, 156, 0, 0, 0, 0, 0, 0, 64, 156, 0, 0, 0, 0, 0, 0,
        255, 255, 255, 255, 0, 0, 0, 0, 0, 148, 53, 119, 0, 0, 0, 0,
        80, 75, 6, 7, 0, 0, 0, 0, 255, 147, 53, 119, 1, 0, 0, 0, 1, 0, 0, 0,
        80, 75, 5, 6, 0, 0, 0, 0, 64, 156, 64, 156, 255, 255, 255, 255,
        0, 148, 53, 119, 0, 0])"
  by (simp add: eocdr_eval)

text \<open>
  A central directory of exactly \<open>0xfffffffe\<close> bytes (40000 entries, starting at offset
  2000000000) does not trigger ZIP64: the output is the classic record of 22 bytes with the
  size in its 32-bit field.
\<close>

theorem end_of_central_directory_size_counterexample:
  "rec_outputStreamCursor (example_record 0xfffffffe)
     - rec_offsetOfStartOfCentralDirectory (example_record 0xfffffffe) = 0xfffffffe
   \<and> getEndOfCentralDirectoryRecord (example_record 0xfffffffe) True = Inr (HowLong 22)
   \<and> getEndOfCentralDirectoryRecord (example_record 0xfffffffe) False =
       Inr (Encoded [80, 75, 5, 6, 0, 0, 0, 0, 64, 156, 64, 156, 254, 255, 255, 255,
          0, 148, 53, 119, 0, 0])"
  using eocdr_example_classic by (simp add: eocdr_eval)

text \<open>
  At sizes \<open>0xfffffffe\<close> (the classic record is written) and \<open>0xffffffff\<close> (the ZIP64
  variant of 98 bytes is written).  The byte lists are what the encoder returns.
\<close>

theorem end_of_central_directory_zip64_exact_witness:
  "eocd_fields_fit (example_record 0xfffffffe)
   \<and> eocd_classic (example_record 0xfffffffe)
       [80, 75, 5, 6, 0, 0, 0, 0, 64, 156, 64, 156, 254, 255, 255, 255,
        0, 148, 53, 119, 0, 0]
   \<and> eocd_fields_fit (example_record 0xffffffff)
   \<and> getEndOfCentralDirectoryRecord (example_record 0xffffffff) True = Inr (HowLong 98)
   \<and> getEndOfCentralDirectoryRecord (example_record 0xffffffff) False =
     Inr (Encoded
       [80, 75, 6, 6, 44, 0, 0, 0, 0, 0, 0, 0, 63, 3, 45, 0, 0, 0, 0, 0, 0, 0, 0, 0,
        64, 156, 0, 0, 0, 0, 0, 0, 64, 156, 0, 0, 0, 0, 0, 0,
        255, 255, 255, 255, 0, 0, 0, 0, 0, 148, 53, 119, 0, 0, 0, 0,
        80, 75, 6, 7, 0, 0, 0, 0, 255, 147, 53, 119, 1, 0, 0, 0, 1, 0, 0, 0,
        80, 75, 5, 6, 0, 0, 0, 0, 64, 156, 64, 156, 255, 255, 255, 255,
        0, 148, 53, 119, 0, 0])
   \<and> eocd_zip64 (example_record 0xffffffff)
       [80, 75, 6, 6, 44, 0, 0, 0, 0, 0, 0, 0, 63, 3, 45, 0, 0, 0, 0, 0, 0, 0, 0, 0,
        64, 156, 0, 0, 0, 0, 0, 0, 64, 156, 0, 0, 0, 0, 0, 0,
        255, 255, 255, 255, 0, 0, 0, 0, 0, 148, 53, 119, 0, 0, 0, 0,
        80, 75, 6, 7, 0, 0, 0, 0, 255, 147, 53, 119, 1, 0, 0, 0, 1, 0, 0, 0,
        80, 75, 5, 6, 0, 0, 0, 0, 64, 156, 64, 156, 255, 255, 255, 255,
        0, 148, 53, 119, 0, 0]"
proof -
  note t1 = end_of_central_directory_zip64_exact [of "example_record 0xfffffffe"]
  note t2 = end_of_central_directory_zip64_exact [of "example_record 0xffffffff"]
  have c1: "\<not> (rec_forceZip64Format (example_record 0xfffffffe)
        \<or> rec_entriesCount (example_record 0xfffffffe) \<ge> 0xffff
        \<or> rec_outputStreamCursor (example_record 0xfffffffe)
            - rec_offsetOfStartOfCentralDirectory (example_record 0xfffffffe) \<ge> 0xffffffff
        \<or> rec_offsetOfStartOfCentralDirectory (example_record 0xfffffffe) \<ge> 0xffffffff)"
    by (simp add: example_record_def)
  have c2: "rec_outputStreamCursor (example_record 0xffffffff)
            - rec_offsetOfStartOfCentralDirectory (example_record 0xffffffff) \<ge> 0xffffffff"
    by (simp add: example_record_def)
  have f1: "eocd_fields_fit (example_record 0xfffffffe)"
    using t1 eocdr_example_classic by blast
  have f2: "eocd_fields_fit (example_record 0xffffffff)"
    using t2 eocdr_example_zip64 by blast
  have s1: "eocd_classic (example_record 0xfffffffe)
       [80, 75, 5, 6, 0, 0, 0, 0, 64, 156, 64, 156, 254, 255, 255, 255,
        0, 148, 53, 119, 0, 0]"
    using t1 eocdr_example_classic c1 by blast
  have s2: "eocd_zip64 (example_record 0xffffffff)
       [80, 75, 6, 6, 44, 0, 0, 0, 0, 0, 0, 0, 63, 3, 45, 0, 0, 0, 0, 0, 0, 0, 0, 0,
        64, 156, 0, 0, 0, 0, 0, 0, 64, 156, 0, 0, 0, 0, 0, 0,
        255, 255, 255, 255, 0, 0, 0, 0, 0, 148, 53, 119, 0, 0, 0, 0,
        80, 75, 6, 7, 0, 0, 0, 0, 255, 147, 53, 119, 1, 0, 0, 0, 1, 0, 0, 0,
        80, 75, 5, 6, 0, 0, 0, 0, 64, 156, 64, 156, 255, 255, 255, 255,
        0, 148, 53, 119, 0, 0]"
    using t2 eocdr_example_zip64 c2 by blast
  have h2: "getEndOfCentralDirectoryRecord (example_record 0xffffffff) True = Inr (HowLong 98)"
    using t2 c2 by simp
  from f1 f2 s1 s2 h2 eocdr_example_zip64 show ?thesis by blast
qed

section \<open>Validation: properties\<close>

lemma buffer_includes_iff:
  "buffer_includes hay needle \<longleftrightarrow> (\<exists>pre post. hay = pre @ needle @ post)"
proof (induction hay)
  case Nil
  then show ?case by auto
next
  case (Cons b bs)
  show ?case
  proof
    assume "buffer_includes (b # bs) needle"
    then consider "take (length needle) (b # bs) = needle" | "buffer_includes bs needle"
      by auto
    then show "\<exists>pre post. b # bs = pre @ needle @ post"
    proof cases
      case 1
      then have "b # bs = [] @ needle @ drop (length needle) (b # bs)"
        by (metis append_Nil append_take_drop_id)
      then show ?thesis by blast
    next
      case 2
      with Cons.IH obtain pre post where "bs = pre @ needle @ post" by blast
      then have "b # bs = (b # pre) @ needle @ post" by simp
      then show ?thesis by blast
    qed
  next
    assume "\<exists>pre post. b # bs = pre @ needle @ post"
    then obtain pre post where h: "b # bs = pre @ needle @ post" by blast
    show "buffer_includes (b # bs) needle"
    proof (cases pre)
      case Nil
      with h have "take (length needle) (b # bs) = needle" by simp
      then show ?thesis by simp
    next
      case (Cons p pre')
      with h have "bs = pre' @ needle @ post" by simp
      with Cons.IH have "buffer_includes bs needle" by blast
      then show ?thesis by simp
    qed
  qed
qed

lemma Entry_isl:
  "isl (Entry d p opts) \<longleftrightarrow>
     (int (length (utf8_encode p)) > 0xffff
      \<or> (case opt_mode opts of None \<Rightarrow> True | Some m \<Rightarrow> (m AND 0xffff) \<noteq> m)
      \<or> (\<exists>c. opt_fileComment opts = Some c \<and> int (length (file_comment_bytes c)) > 0xffff))"
  by (auto simp: Entry_def Let_def file_comment_bytes_def split: option.splits comment_arg.splits)

lemma Entry_Inr:
  "Entry d p opts = Inr e \<Longrightarrow>
     utf8FileName e = utf8_encode p
     \<and> fileComment e = (case opt_fileComment opts of None \<Rightarrow> [] | Some c \<Rightarrow> file_comment_bytes c)
     \<and> relativeOffsetOfLocalHeader e = None
     \<and> uncompressedSize e = opt_size opts \<and> compressedSize e = opt_compressedSize opts"
  by (auto simp: Entry_def Let_def file_comment_bytes_def
      split: option.splits comment_arg.splits if_splits)


lemma build_reverse_mid:
  "c \<notin> set ys \<Longrightarrow> build_reverse (xs @ c # ys) i m c = Some (i + length xs)"
  by (induction xs arbitrary: i m) (auto simp: build_reverse_notin)

lemma reverseCp437_at:
  assumes "i < 256" and "cp437 ! i = c" and "c \<notin> set (drop (Suc i) cp437)"
  shows "reverseCp437 c = Some i"
proof -
  from assms(1) have "i < length cp437" by (simp add: length_cp437)
  then have "cp437 = take i cp437 @ cp437 ! i # drop (Suc i) cp437"
    by (rule id_take_nth_drop)
  then have "reverseCp437 c = build_reverse (take i cp437 @ c # drop (Suc i) cp437) 0 Map.empty c"
    using assms(2) by (simp add: reverseCp437_def)
  also have "\<dots> = Some (0 + length (take i cp437))"
    using assms(3) by (rule build_reverse_mid)
  finally show ?thesis using \<open>i < length cp437\<close> by simp
qed

lemma reverseCp437_P: "reverseCp437 0x50 = Some 0x50"
  by (rule reverseCp437_at) (simp_all add: cp437_def ascii_def)

lemma reverseCp437_K: "reverseCp437 0x4b = Some 0x4b"
  by (rule reverseCp437_at) (simp_all add: cp437_def ascii_def)

lemma reverseCp437_club: "reverseCp437 9827 = Some 5"
  by (rule reverseCp437_at) (simp_all add: cp437_def ascii_def)

lemma reverseCp437_spade: "reverseCp437 9824 = Some 6"
  by (rule reverseCp437_at) (simp_all add: cp437_def ascii_def)

lemma encodeCp437_signature: "encodeCp437 [0x50, 0x4b, 9827, 9824] = Inr eocdrSignatureBuffer"
  by (simp add: encodeCp437_def is_printable_ascii_def reverseCp437_P reverseCp437_K
      reverseCp437_club reverseCp437_spade eocdrSignatureBuffer_def)


lemma archive_comment_unfold:
  "archive_comment opts =
     (case opt_comment opts of
        None \<Rightarrow> Inr []
      | Some c \<Rightarrow>
          (case archive_comment_bytes c of
             Inl err \<Rightarrow> Inl err
           | Inr comment \<Rightarrow>
               if int (length comment) > 0xffff then Inl CommentTooLarge
               else if \<exists>pre post. comment = pre @ eocdrSignatureBuffer @ post
                 then Inl CommentContainsSignature
               else Inr comment))"
  by (simp add: archive_comment_def archive_comment_bytes_def buffer_includes_iff
      split: option.splits sum.splits)

lemma addCentralDirectoryRecord_comment_error:
  assumes "queue self \<noteq> None" and "archive_comment opts = Inl err"
  shows "addCentralDirectoryRecord self es opts = (self, Inl err)"
    and "index_end self opts = (self, Inl err)"
  using assms by (auto simp: addCentralDirectoryRecord_def index_end_def split: option.splits)

text \<open>
  C3, as the code has it.  The archive comment given to \<open>addCentralDirectoryRecord\<close> (and
  so to \<open>end\<close> of \<open>index.js\<close>) is checked when the call is made, before anything is chained
  on the queue or written: a comment of more than \<open>0xffff\<close> bytes is refused, and so is a
  comment whose bytes contain \<open>50 4B 05 06\<close>; the archive is left as it was.  The file
  comment of an entry is checked by the \<open>Entry\<close> constructor for its length only: more than
  \<open>0xffff\<close> bytes are refused, and a comment within that length is accepted whatever bytes it
  holds.
\<close>

theorem comment_validation:
  "(queue self \<noteq> None \<and> opt_comment opts = Some c \<and> archive_comment_bytes c = Inr bytes
      \<and> int (length bytes) > 0xffff
    \<longrightarrow> addCentralDirectoryRecord self es opts = (self, Inl CommentTooLarge)
        \<and> index_end self opts = (self, Inl CommentTooLarge))
   \<and> (queue self \<noteq> None \<and> opt_comment opts = Some c \<and> archive_comment_bytes c = Inr bytes
      \<and> int (length bytes) \<le> 0xffff \<and> bytes = pre @ eocdrSignatureBuffer @ post
    \<longrightarrow> addCentralDirectoryRecord self es opts = (self, Inl CommentContainsSignature)
        \<and> index_end self opts = (self, Inl CommentContainsSignature))
   \<and> (opt_fileComment eopts = Some fc \<and> int (length (file_comment_bytes fc)) > 0xffff
    \<longrightarrow> isl (Entry d p eopts))
   \<and> (opt_fileComment eopts = Some fc \<and> int (length (file_comment_bytes fc)) \<le> 0xffff
      \<and> int (length (utf8_encode p)) \<le> 0xffff \<and> opt_mode eopts = Some m \<and> (m AND 0xffff) = m
    \<longrightarrow> (\<exists>e. Entry d p eopts = Inr e \<and> fileComment e = file_comment_bytes fc))"
proof (intro conjI impI)
  assume h: "queue self \<noteq> None \<and> opt_comment opts = Some c
      \<and> archive_comment_bytes c = Inr bytes \<and> int (length bytes) > 0xffff"
  then have "archive_comment opts = Inl CommentTooLarge"
    by (simp add: archive_comment_unfold)
  with h show "addCentralDirectoryRecord self es opts = (self, Inl CommentTooLarge)"
    and "index_end self opts = (self, Inl CommentTooLarge)"
    by (simp_all add: addCentralDirectoryRecord_comment_error)
next
  assume h: "queue self \<noteq> None \<and> opt_comment opts = Some c
      \<and> archive_comment_bytes c = Inr bytes \<and> int (length bytes) \<le> 0xffff
      \<and> bytes = pre @ eocdrSignatureBuffer @ post"
  then have a: "opt_comment opts = Some c" "archive_comment_bytes c = Inr bytes"
      "int (length bytes) \<le> 0xffff" and q: "queue self \<noteq> None"
    by blast+
  from h have ex: "\<exists>pre post. bytes = pre @ eocdrSignatureBuffer @ post" by blast
  from a ex have "archive_comment opts = Inl CommentContainsSignature"
    by (simp add: archive_comment_unfold)
  with q show "addCentralDirectoryRecord self es opts = (self, Inl CommentContainsSignature)"
    and "index_end self opts = (self, Inl CommentContainsSignature)"
    by (simp_all add: addCentralDirectoryRecord_comment_error)
next
  assume "opt_fileComment eopts = Some fc \<and> int (length (file_comment_bytes fc)) > 0xffff"
  then show "isl (Entry d p eopts)" by (auto simp: Entry_isl)
next
  assume h: "opt_fileComment eopts = Some fc \<and> int (length (file_comment_bytes fc)) \<le> 0xffff
      \<and> int (length (utf8_encode p)) \<le> 0xffff \<and> opt_mode eopts = Some m \<and> (m AND 0xffff) = m"
  then have "\<not> isl (Entry d p eopts)" by (auto simp: Entry_isl)
  then obtain e where e: "Entry d p eopts = Inr e" by (cases "Entry d p eopts") auto
  with h Entry_Inr [OF e] show "\<exists>e. Entry d p eopts = Inr e \<and> fileComment e = file_comment_bytes fc"
    by simp
qed

text \<open>
  A file comment that is the end-of-central-directory signature itself is accepted:
  \<open>addReadStream\<close> of an empty stream with that comment succeeds and the entry carries it.
\<close>

theorem file_comment_signature_counterexample:
  "\<forall>ev. map_sum id fileComment
          (snd (addReadStream ev ZipFile_new [] (ascii ''a'')
                 (example_options\<lparr> opt_fileComment := Some (CommentBuffer [0x50, 0x4b, 0x05, 0x06]) \<rparr>)))
        = Inr [0x50, 0x4b, 0x05, 0x06]"
  by (simp add: addReadStream_def validateMetadataPath_def ascii_def replace_backslashes_def
      matches_trailing_slash_def FileEntry_def Entry_def example_options_def no_options_def
      example_date_def dateToDosDateTime_def default_true_def default_false_def Let_def
      addEntry_def entryTask_def ZipFile_new_def getLocalFileHeader_def getDataDescriptor_def
      writeEntryStream_def writeBuffer_def write_all_Inr writeUInt16LE_eq writeUInt32LE_eq
      generalPurposeBitFlag_def compression_method_def useZip64Format_def js_gt_def
      split: sum.splits prod.splits)


text \<open>
  At the archive comment \<open>PK\<close> followed by the club and spade characters, which CP437
  encodes as \<open>50 4B 05 06\<close>, at a comment of \<open>0x10000\<close> bytes, and at file comments of
  \<open>0x10000\<close> bytes and of the four signature bytes.
\<close>

theorem comment_validation_witness:
  "addCentralDirectoryRecord ZipFile_new []
       (no_options\<lparr> opt_comment := Some (CommentString [0x50, 0x4b, 9827, 9824]) \<rparr>)
     = (ZipFile_new, Inl CommentContainsSignature)
   \<and> index_end ZipFile_new
       (no_options\<lparr> opt_comment := Some (CommentBuffer (replicate 0x10000 0)) \<rparr>)
     = (ZipFile_new, Inl CommentTooLarge)
   \<and> isl (Entry example_date (ascii ''a'')
         (example_options\<lparr> opt_mode := Some 0x81b4,
            opt_fileComment := Some (CommentBuffer (replicate 0x10000 0)) \<rparr>))
   \<and> (\<exists>e. Entry example_date (ascii ''a'')
          (example_options\<lparr> opt_mode := Some 0x81b4,
             opt_fileComment := Some (CommentBuffer eocdrSignatureBuffer) \<rparr>) = Inr e
        \<and> fileComment e = eocdrSignatureBuffer)"
proof -
  have q: "queue ZipFile_new \<noteq> None" by (simp add: ZipFile_new_def)
  have a: "addCentralDirectoryRecord ZipFile_new []
       (no_options\<lparr> opt_comment := Some (CommentString [0x50, 0x4b, 9827, 9824]) \<rparr>)
     = (ZipFile_new, Inl CommentContainsSignature)"
    using q comment_validation [where self = ZipFile_new and es = "[]"
        and opts = "no_options\<lparr> opt_comment := Some (CommentString [0x50, 0x4b, 9827, 9824]) \<rparr>"
        and c = "CommentString [0x50, 0x4b, 9827, 9824]" and bytes = eocdrSignatureBuffer
        and pre = "[]" and post = "[]"]
    by (simp add: archive_comment_bytes_def encodeCp437_signature)
       (simp add: eocdrSignatureBuffer_def)
  have b: "index_end ZipFile_new
       (no_options\<lparr> opt_comment := Some (CommentBuffer (replicate 0x10000 0)) \<rparr>)
     = (ZipFile_new, Inl CommentTooLarge)"
    using q comment_validation [where self = ZipFile_new and es = "[]"
        and opts = "no_options\<lparr> opt_comment := Some (CommentBuffer (replicate 0x10000 0)) \<rparr>"
        and c = "CommentBuffer (replicate 0x10000 0)" and bytes = "replicate 0x10000 0"]
    by (simp add: archive_comment_bytes_def)
  have c: "isl (Entry example_date (ascii ''a'')
         (example_options\<lparr> opt_mode := Some 0x81b4,
            opt_fileComment := Some (CommentBuffer (replicate 0x10000 0)) \<rparr>))"
    using comment_validation [where d = example_date and p = "ascii ''a''"
        and eopts = "example_options\<lparr> opt_mode := Some 0x81b4,
            opt_fileComment := Some (CommentBuffer (replicate 0x10000 0)) \<rparr>"
        and fc = "CommentBuffer (replicate 0x10000 0)"]
    by (simp add: file_comment_bytes_def)
  have d: "\<exists>e. Entry example_date (ascii ''a'')
          (example_options\<lparr> opt_mode := Some 0x81b4,
             opt_fileComment := Some (CommentBuffer eocdrSignatureBuffer) \<rparr>) = Inr e
        \<and> fileComment e = eocdrSignatureBuffer"
    using comment_validation [where d = example_date and p = "ascii ''a''"
        and eopts = "example_options\<lparr> opt_mode := Some 0x81b4,
             opt_fileComment := Some (CommentBuffer eocdrSignatureBuffer) \<rparr>"
        and fc = "CommentBuffer eocdrSignatureBuffer" and m = "0x81b4"]
    by (simp add: file_comment_bytes_def eocdrSignatureBuffer_def ascii_def)
  from a b c d show ?thesis by blast
qed

lemma FileEntry_isl:
  "isl (FileEntry d p opts) \<longleftrightarrow>
     (int (length (utf8_encode p)) > 0xffff
      \<or> (\<exists>m. opt_mode opts = Some m \<and> (m AND 0xffff) \<noteq> m)
      \<or> (\<exists>c. opt_fileComment opts = Some c \<and> int (length (file_comment_bytes c)) > 0xffff))"
  by (auto simp: FileEntry_def Entry_isl split: option.splits)

lemma Entry_errors:
  "Entry d p opts = Inl err \<Longrightarrow> err \<in> {FileNameTooLong, InvalidMode, FileCommentTooLarge}"
  by (auto simp: Entry_def Let_def split: option.splits if_splits)

text \<open>
  What is validated when the call is made.  In all four add operations a path that
  \<open>validateMetadataPath\<close> refuses, and in \<open>addBuffer\<close> a buffer of more than \<open>0x3fffffff\<close>
  bytes, is refused at once: nothing is chained on the queue and the archive is returned as
  it was.  In \<open>addReadStream\<close> the same holds for what the \<open>Entry\<close> constructor refuses (a
  name or file comment of more than \<open>0xffff\<close> bytes, a mode with bits above the low 16).
\<close>

lemma call_time_validation:
  "(validateMetadataPath p False = Inl err \<longrightarrow>
      addFile ev self realPath p opts = (self, Inl err)
      \<and> addReadStream ev self readStream p opts = (self, Inl err)
      \<and> addBuffer ev self buf p opts = (self, Inl err))
   \<and> (validateMetadataPath p True = Inl err \<longrightarrow>
      addEmptyDirectory ev self p opts = (self, Inl err))
   \<and> (validateMetadataPath p False = Inr mp \<and> int (length buf) > 0x3fffffff \<longrightarrow>
      addBuffer ev self buf p opts = (self, Inl BufferTooLarge))
   \<and> (validateMetadataPath p False = Inr mp
      \<and> (int (length (utf8_encode mp)) > 0xffff
         \<or> (\<exists>m. opt_mode opts = Some m \<and> (m AND 0xffff) \<noteq> m)
         \<or> (\<exists>c. opt_fileComment opts = Some c \<and> int (length (file_comment_bytes c)) > 0xffff))
      \<longrightarrow> (\<exists>err'. addReadStream ev self readStream p opts = (self, Inl err')
              \<and> err' \<in> {FileNameTooLong, InvalidMode, FileCommentTooLarge}))"
proof (intro conjI impI)
  assume "validateMetadataPath p False = Inl err"
  then show "addFile ev self realPath p opts = (self, Inl err)"
    and "addReadStream ev self readStream p opts = (self, Inl err)"
    and "addBuffer ev self buf p opts = (self, Inl err)"
    by (simp_all add: addFile_def addReadStream_def addBuffer_def)
next
  assume "validateMetadataPath p True = Inl err"
  then show "addEmptyDirectory ev self p opts = (self, Inl err)"
    by (simp add: addEmptyDirectory_def)
next
  assume "validateMetadataPath p False = Inr mp \<and> int (length buf) > 0x3fffffff"
  then show "addBuffer ev self buf p opts = (self, Inl BufferTooLarge)"
    by (simp add: addBuffer_def)
next
  let ?o = "opts\<lparr> opt_compress := Some (default_true (opt_compress opts)),
                    opt_forceZip64Format := Some (default_false (opt_forceZip64Format opts)) \<rparr>"
  assume h: "validateMetadataPath p False = Inr mp
      \<and> (int (length (utf8_encode mp)) > 0xffff
         \<or> (\<exists>m. opt_mode opts = Some m \<and> (m AND 0xffff) \<noteq> m)
         \<or> (\<exists>c. opt_fileComment opts = Some c \<and> int (length (file_comment_bytes c)) > 0xffff))"
  then have "isl (FileEntry (now ev) mp ?o)" by (simp add: FileEntry_isl)
  then obtain err' where e: "FileEntry (now ev) mp ?o = Inl err'"
    by (cases "FileEntry (now ev) mp ?o") auto
  then have "err' \<in> {FileNameTooLong, InvalidMode, FileCommentTooLarge}"
    unfolding FileEntry_def by (rule Entry_errors)
  moreover from h e have "addReadStream ev self readStream p opts = (self, Inl err')"
    by (simp add: addReadStream_def)
  ultimately show "\<exists>err'. addReadStream ev self readStream p opts = (self, Inl err')
              \<and> err' \<in> {FileNameTooLong, InvalidMode, FileCommentTooLarge}"
    by blast
qed

text \<open>At an absolute path, a path with a \<open>..\<close> segment, a buffer of \<open>0x40000000\<close> bytes and a bad mode.\<close>

lemma call_time_validation_examples:
  "\<forall>ev. addBuffer ev ZipFile_new [] (ascii ''/abs/path'') no_options
            = (ZipFile_new, Inl AbsolutePath)
        \<and> addEmptyDirectory ev ZipFile_new (ascii ''a/../b'') no_options
            = (ZipFile_new, Inl InvalidRelativePath)
        \<and> addBuffer ev ZipFile_new (replicate 0x40000000 0) (ascii ''a'') no_options
            = (ZipFile_new, Inl BufferTooLarge)
        \<and> addReadStream ev ZipFile_new [] (ascii ''a'') (no_options\<lparr> opt_mode := Some 0x10000 \<rparr>)
            = (ZipFile_new, Inl InvalidMode)"
proof
  fix ev
  have p1: "validateMetadataPath (ascii ''/abs/path'') False = Inl AbsolutePath"
    and p2: "validateMetadataPath (ascii ''a/../b'') True = Inl InvalidRelativePath"
    and p3: "validateMetadataPath (ascii ''a'') False = Inr (ascii ''a'')"
    by (simp_all add: validateMetadataPath_def ascii_def replace_backslashes_def
        matches_trailing_slash_def is_ascii_letter_def)
  have a: "addBuffer ev ZipFile_new [] (ascii ''/abs/path'') no_options
            = (ZipFile_new, Inl AbsolutePath)"
    using call_time_validation [where p = "ascii ''/abs/path''" and err = AbsolutePath] p1
    by blast
  have b: "addEmptyDirectory ev ZipFile_new (ascii ''a/../b'') no_options
            = (ZipFile_new, Inl InvalidRelativePath)"
    using call_time_validation [where p = "ascii ''a/../b''" and err = InvalidRelativePath] p2
    by blast
  have c: "addBuffer ev ZipFile_new (replicate 0x40000000 0) (ascii ''a'') no_options
            = (ZipFile_new, Inl BufferTooLarge)"
    using call_time_validation [where p = "ascii ''a''" and mp = "ascii ''a''"
        and buf = "replicate 0x40000000 0" and ev = ev and self = ZipFile_new
        and opts = no_options] p3
    by simp
  from call_time_validation [where p = "ascii ''a''" and mp = "ascii ''a''"
        and ev = ev and self = ZipFile_new and readStream = "[]"
        and opts = "no_options\<lparr> opt_mode := Some 0x10000 \<rparr>"] p3
  obtain err' where e: "addReadStream ev ZipFile_new [] (ascii ''a'')
        (no_options\<lparr> opt_mode := Some 0x10000 \<rparr>) = (ZipFile_new, Inl err')"
    by auto
  have "addReadStream ev ZipFile_new [] (ascii ''a'') (no_options\<lparr> opt_mode := Some 0x10000 \<rparr>)
        = (ZipFile_new, Inl InvalidMode)"
    using e p3
    by (simp add: addReadStream_def FileEntry_def Entry_def Let_def ascii_def no_options_def)
  with a b c show "addBuffer ev ZipFile_new [] (ascii ''/abs/path'') no_options
            = (ZipFile_new, Inl AbsolutePath)
        \<and> addEmptyDirectory ev ZipFile_new (ascii ''a/../b'') no_options
            = (ZipFile_new, Inl InvalidRelativePath)
        \<and> addBuffer ev ZipFile_new (replicate 0x40000000 0) (ascii ''a'') no_options
            = (ZipFile_new, Inl BufferTooLarge)
        \<and> addReadStream ev ZipFile_new [] (ascii ''a'') (no_options\<lparr> opt_mode := Some 0x10000 \<rparr>)
            = (ZipFile_new, Inl InvalidMode)"
    by blast
qed

text \<open>
  C4.  \<open>addEmptyDirectory\<close> and \<open>addBuffer\<close> construct the entry inside the task that
  \<open>addEntry\<close> chains on the queue, where \<open>addReadStream\<close> constructs it before.  On a new
  archive, \<open>addEmptyDirectory\<close> of \<open>a\<close> with mode \<open>0x10000\<close> is not refused when the call is
  made: the task fails with the error for an invalid mode, the queue is rejected and the
  stream destroyed.  \<open>addBuffer\<close> of an empty buffer with that mode does the same.  A valid
  \<open>addEmptyDirectory\<close> of \<open>b\<close> made afterwards fails with the same error, although it
  succeeds on a new archive.
\<close>

theorem queued_validation_failure:
  "\<forall>ev. addEmptyDirectory ev ZipFile_new (ascii ''a'') (no_options\<lparr> opt_mode := Some 0x10000 \<rparr>)
          = (ZipFile_new\<lparr> queue := Some (Rejected InvalidMode), destroyed := True \<rparr>,
             Inl InvalidMode)
        \<and> addBuffer ev ZipFile_new [] (ascii ''a'')
            (example_options\<lparr> opt_mode := Some 0x10000 \<rparr>)
          = (ZipFile_new\<lparr> queue := Some (Rejected InvalidMode), destroyed := True \<rparr>,
             Inl InvalidMode)
        \<and> snd (addEmptyDirectory ev
                 (ZipFile_new\<lparr> queue := Some (Rejected InvalidMode), destroyed := True \<rparr>)
                 (ascii ''b'') example_options) = Inl InvalidMode
        \<and> \<not> isl (snd (addEmptyDirectory ev ZipFile_new (ascii ''b'') example_options))"
  by (simp add: addEmptyDirectory_def addBuffer_def validateMetadataPath_def ascii_def
      replace_backslashes_def matches_trailing_slash_def is_ascii_letter_def
      DirectoryEntry_def FileEntry_def Entry_def
      example_options_def no_options_def default_true_def
      example_date_def dateToDosDateTime_def Let_def
      addEntry_def entryTask_def ZipFile_new_def getLocalFileHeader_def getDataDescriptor_def
      writeBuffer_def write_all_Inr writeUInt16LE_eq writeUInt32LE_eq
      generalPurposeBitFlag_def compression_method_def useZip64Format_def js_gt_def
      split: sum.splits prod.splits)

section \<open>Writing an entry: properties\<close>

lemma chunks_length_concat: "chunks_length chunks = int (length (concat chunks))"
  by (induction chunks) (simp_all add: chunks_length_def)

lemma writeEntryStream_cases:
  "writeEntryStream ev s e rs =
     (let out = (if compress e then deflateRawStream ev rs else rs);
          s1 = s\<lparr> pushed := pushed s @ concat out \<rparr>;
          e1 = e\<lparr> crc32 := Some (foldl (\<lambda>c chunk. crc32Unsigned ev chunk c) 0 rs) \<rparr>
      in if uncompressedSize e = None \<or> uncompressedSize e = Some (chunks_length rs)
         then (s1\<lparr> outputStreamCursor := outputStreamCursor s + chunks_length out \<rparr>,
               Inr (e1\<lparr> uncompressedSize := Some (chunks_length rs) \<rparr>))
         else (s1\<lparr> uncaughtException := Some UnexpectedNumberOfBytes \<rparr>,
               Inl PromiseNeverSettles))"
  by (cases e) (auto simp: writeEntryStream_def Let_def chunks_length_def split: option.splits)

lemma writeEntryStream_forwarded:
  "writeEntryStream ev s e rs = (s', Inr e') \<Longrightarrow>
     outputStreamCursor s' - outputStreamCursor s = forwarded s s'
     \<and> compressedSize e' = compressedSize e"
  by (auto simp: writeEntryStream_cases Let_def forwarded_def chunks_length_concat
      split: if_splits)

lemma run_write_forwarded:
  "run_write ev s e w = (s', Inr e') \<Longrightarrow>
     outputStreamCursor s' - outputStreamCursor s = forwarded s s'
     \<and> compressedSize e' = compressedSize e"
  by (cases w) (auto simp: writeEntryStream_forwarded writeBuffer_def forwarded_def)

lemma write_all_error: "write_all ws = Inl err \<Longrightarrow> Inl err \<in> set ws"
  by (induction ws) (auto split: sum.splits)

lemma getDataDescriptor_error: "getDataDescriptor e = Inl err \<Longrightarrow> err = OutOfRange"
  by (auto simp: getDataDescriptor_def writeUInt32LE_eq writeUInt64LE_eq
      dest!: write_all_error split: if_splits)

text \<open>
  The task of \<open>addEntry\<close> once the header is written and \<open>write\<close> has resolved: the compressed
  size is compared with the number of bytes pushed since the header.
\<close>

lemma addEntry_after_write:
  assumes q: "queue self = Some Resolved"
    and h: "getLocalFileHeader (e0\<lparr> relativeOffsetOfLocalHeader := Some (outputStreamCursor self) \<rparr>)
            = Inr header"
    and w: "run_write ev (writeBuffer self header)
              (e0\<lparr> relativeOffsetOfLocalHeader := Some (outputStreamCursor self) \<rparr>) w
            = (self2, Inr e2)"
  shows "addEntry ev self (Inr (e0, w)) =
     (case compressedSize e0 of
        Some c \<Rightarrow>
          if forwarded (writeBuffer self header) self2 \<noteq> c
          then (self2\<lparr> queue := Some (Rejected UnexpectedCompressedSize), destroyed := True \<rparr>,
                Inl UnexpectedCompressedSize)
          else (case getDataDescriptor e2 of
                  Inl err \<Rightarrow> (self2\<lparr> queue := Some (Rejected err), destroyed := True \<rparr>, Inl err)
                | Inr d \<Rightarrow> (writeBuffer self2 d, Inr e2))
      | None \<Rightarrow>
          (case getDataDescriptor
                  (e2\<lparr> compressedSize := Some (forwarded (writeBuffer self header) self2) \<rparr>) of
             Inl err \<Rightarrow> (self2\<lparr> queue := Some (Rejected err), destroyed := True \<rparr>, Inl err)
           | Inr d \<Rightarrow>
               (writeBuffer self2 d,
                Inr (e2\<lparr> compressedSize := Some (forwarded (writeBuffer self header) self2) \<rparr>))))"
proof -
  from run_write_forwarded [OF w]
  have f: "outputStreamCursor self2 - outputStreamCursor (writeBuffer self header)
           = forwarded (writeBuffer self header) self2"
    and c: "compressedSize e2 = compressedSize e0" by simp_all
  show ?thesis
    using q h w f c
    by (auto simp: addEntry_def entryTask_def Let_def split: option.splits sum.splits
        dest: getDataDescriptor_error)
qed

text \<open>
  The task of \<open>addEntry\<close> when the stream ends with a number of bytes other than the declared
  uncompressed size: the listener of \<open>end\<close> throws, the promise of \<open>write\<close> is never settled,
  and the queue stays pending with nothing rejected and nothing destroyed.
\<close>

lemma addEntry_stream_mismatch:
  assumes q: "queue self = Some Resolved"
    and h: "getLocalFileHeader (e0\<lparr> relativeOffsetOfLocalHeader := Some (outputStreamCursor self) \<rparr>)
            = Inr header"
    and u: "uncompressedSize e0 = Some u" "u \<noteq> chunks_length rs"
  shows "addEntry ev self (Inr (e0, WriteEntryStream rs)) =
     ((writeBuffer self header)
        \<lparr> pushed := pushed self @ header
             @ concat (if compress e0 then deflateRawStream ev rs else rs),
          uncaughtException := Some UnexpectedNumberOfBytes,
          queue := Some Pending \<rparr>,
      Inl PromiseNeverSettles)"
  using q h u
  by (simp add: addEntry_def entryTask_def writeEntryStream_cases Let_def writeBuffer_def)

text \<open>
  What the size checks do.  A stream whose number of bytes agrees with the declared
  uncompressed size, or with none declared, resolves with the entry's uncompressed size set
  to that number; one that disagrees leaves the promise unsettled and an uncaught exception
  behind.  When \<open>write\<close> has resolved, a declared compressed size that differs from the number
  of bytes pushed since the header rejects the operation with the error for an unexpected
  compressed size; otherwise the operation goes on to the data descriptor with the entry's
  compressed size equal to that number.
\<close>

lemma size_checks:
  "(uncompressedSize e = Some u \<and> u \<noteq> chunks_length rs \<longrightarrow>
      snd (writeEntryStream ev s e rs) = Inl PromiseNeverSettles
      \<and> uncaughtException (fst (writeEntryStream ev s e rs)) = Some UnexpectedNumberOfBytes)
   \<and> (uncompressedSize e = None \<or> uncompressedSize e = Some (chunks_length rs) \<longrightarrow>
      (\<exists>s' e'. writeEntryStream ev s e rs = (s', Inr e')
              \<and> uncompressedSize e' = Some (chunks_length rs)))
   \<and> (queue self = Some Resolved
      \<and> getLocalFileHeader (e0\<lparr> relativeOffsetOfLocalHeader := Some (outputStreamCursor self) \<rparr>)
          = Inr header
      \<and> run_write ev (writeBuffer self header)
            (e0\<lparr> relativeOffsetOfLocalHeader := Some (outputStreamCursor self) \<rparr>) w
          = (self2, Inr e2) \<longrightarrow>
      (\<forall>c. compressedSize e0 = Some c \<and> c \<noteq> forwarded (writeBuffer self header) self2 \<longrightarrow>
           snd (addEntry ev self (Inr (e0, w))) = Inl UnexpectedCompressedSize)
      \<and> (compressedSize e0 = None
           \<or> compressedSize e0 = Some (forwarded (writeBuffer self header) self2) \<longrightarrow>
         (case getDataDescriptor
                 (e2\<lparr> compressedSize := Some (forwarded (writeBuffer self header) self2) \<rparr>) of
            Inl err \<Rightarrow> snd (addEntry ev self (Inr (e0, w))) = Inl err
          | Inr d \<Rightarrow>
              addEntry ev self (Inr (e0, w)) =
                (writeBuffer self2 d,
                 Inr (e2\<lparr> compressedSize :=
                          Some (forwarded (writeBuffer self header) self2) \<rparr>)))))"
proof (intro conjI impI allI)
  assume "uncompressedSize e = Some u \<and> u \<noteq> chunks_length rs"
  then show "snd (writeEntryStream ev s e rs) = Inl PromiseNeverSettles"
    and "uncaughtException (fst (writeEntryStream ev s e rs)) = Some UnexpectedNumberOfBytes"
    by (auto simp: writeEntryStream_cases Let_def)
next
  assume "uncompressedSize e = None \<or> uncompressedSize e = Some (chunks_length rs)"
  then show "\<exists>s' e'. writeEntryStream ev s e rs = (s', Inr e')
              \<and> uncompressedSize e' = Some (chunks_length rs)"
    by (auto simp: writeEntryStream_cases Let_def)
next
  fix c
  assume a: "queue self = Some Resolved
      \<and> getLocalFileHeader (e0\<lparr> relativeOffsetOfLocalHeader := Some (outputStreamCursor self) \<rparr>)
          = Inr header
      \<and> run_write ev (writeBuffer self header)
            (e0\<lparr> relativeOffsetOfLocalHeader := Some (outputStreamCursor self) \<rparr>) w
          = (self2, Inr e2)"
    and b: "compressedSize e0 = Some c \<and> c \<noteq> forwarded (writeBuffer self header) self2"
  from a b have "addEntry ev self (Inr (e0, w)) =
      (self2\<lparr> queue := Some (Rejected UnexpectedCompressedSize), destroyed := True \<rparr>,
       Inl UnexpectedCompressedSize)"
    by (simp add: addEntry_after_write [of self e0 header ev w self2 e2])
  then show "snd (addEntry ev self (Inr (e0, w))) = Inl UnexpectedCompressedSize" by simp
next
  assume a: "queue self = Some Resolved
      \<and> getLocalFileHeader (e0\<lparr> relativeOffsetOfLocalHeader := Some (outputStreamCursor self) \<rparr>)
          = Inr header
      \<and> run_write ev (writeBuffer self header)
            (e0\<lparr> relativeOffsetOfLocalHeader := Some (outputStreamCursor self) \<rparr>) w
          = (self2, Inr e2)"
    and b: "compressedSize e0 = None
           \<or> compressedSize e0 = Some (forwarded (writeBuffer self header) self2)"
  from a have w: "run_write ev (writeBuffer self header)
            (e0\<lparr> relativeOffsetOfLocalHeader := Some (outputStreamCursor self) \<rparr>) w
          = (self2, Inr e2)" by simp
  from run_write_forwarded [OF w] have c2: "compressedSize e2 = compressedSize e0" by simp
  from a have eq: "addEntry ev self (Inr (e0, w)) =
     (case compressedSize e0 of
        Some c \<Rightarrow>
          if forwarded (writeBuffer self header) self2 \<noteq> c
          then (self2\<lparr> queue := Some (Rejected UnexpectedCompressedSize), destroyed := True \<rparr>,
                Inl UnexpectedCompressedSize)
          else (case getDataDescriptor e2 of
                  Inl err \<Rightarrow> (self2\<lparr> queue := Some (Rejected err), destroyed := True \<rparr>, Inl err)
                | Inr d \<Rightarrow> (writeBuffer self2 d, Inr e2))
      | None \<Rightarrow>
          (case getDataDescriptor
                  (e2\<lparr> compressedSize := Some (forwarded (writeBuffer self header) self2) \<rparr>) of
             Inl err \<Rightarrow> (self2\<lparr> queue := Some (Rejected err), destroyed := True \<rparr>, Inl err)
           | Inr d \<Rightarrow>
               (writeBuffer self2 d,
                Inr (e2\<lparr> compressedSize := Some (forwarded (writeBuffer self header) self2) \<rparr>))))"
    by (intro addEntry_after_write) simp_all
  from b show "case getDataDescriptor
                 (e2\<lparr> compressedSize := Some (forwarded (writeBuffer self header) self2) \<rparr>) of
            Inl err \<Rightarrow> snd (addEntry ev self (Inr (e0, w))) = Inl err
          | Inr d \<Rightarrow>
              addEntry ev self (Inr (e0, w)) =
                (writeBuffer self2 d,
                 Inr (e2\<lparr> compressedSize :=
                          Some (forwarded (writeBuffer self header) self2) \<rparr>))"
  proof
    assume n: "compressedSize e0 = None"
    show ?thesis unfolding eq by (simp add: n split: sum.splits)
  next
    assume s: "compressedSize e0 = Some (forwarded (writeBuffer self header) self2)"
    with c2 have "e2\<lparr> compressedSize := Some (forwarded (writeBuffer self header) self2) \<rparr> = e2"
      by simp
    then show ?thesis unfolding eq by (simp add: s split: sum.splits)
  qed
qed

lemma example_stream_header:
  "getLocalFileHeader \<lparr>
     utf8FileName = [0x61], lastModFileTime = 0, lastModFileDate = 0x5621,
     externalFileAttributes = 0x81b40000, crc32 = None,
     uncompressedSize = Some 3, compressedSize = None, compress = False,
     crcAndFileSizeKnown = False, forceZip64Format = False, fileComment = [],
     relativeOffsetOfLocalHeader = Some 0 \<rparr> =
     Inr [80, 75, 3, 4, 20, 0, 8, 8, 0, 0, 0, 0, 33, 86,
          0, 0, 0, 0, 0, 0, 0, 0, 0, 0, 0, 0, 1, 0, 0, 0, 97]"
  by (simp add: getLocalFileHeader_def generalPurposeBitFlag_def
      compression_method_def writeUInt16LE_def writeUInt32LE_def)

text \<open>
  C5.  On a new archive, \<open>addReadStream\<close> of a stream that delivers the two bytes 1 and 2,
  with path \<open>a\<close>, no compression and a declared size of 3.  The local header and the two
  bytes are pushed to the output.  The operation does not fail with a consistency error: its
  promise is never settled, the queue stays pending, nothing is destroyed, and the error for
  an unexpected number of bytes is left as an uncaught exception.  An \<open>addEmptyDirectory\<close>
  made afterwards is never settled either.
\<close>

theorem stream_size_mismatch_never_settles:
  "\<forall>ev. addReadStream ev ZipFile_new [[1, 2]] (ascii ''a'')
            (example_options\<lparr> opt_size := Some 3 \<rparr>)
          = (ZipFile_new\<lparr> queue := Some Pending,
                           outputStreamCursor := 31,
                           pushed := [80, 75, 3, 4, 20, 0, 8, 8, 0, 0, 0, 0, 33, 86,
                                      0, 0, 0, 0, 0, 0, 0, 0, 0, 0, 0, 0, 1, 0, 0, 0, 97, 1, 2],
                           uncaughtException := Some UnexpectedNumberOfBytes \<rparr>,
             Inl PromiseNeverSettles)
        \<and> \<not> destroyed (fst (addReadStream ev ZipFile_new [[1, 2]] (ascii ''a'')
                               (example_options\<lparr> opt_size := Some 3 \<rparr>)))
        \<and> snd (addEmptyDirectory ev
                 (fst (addReadStream ev ZipFile_new [[1, 2]] (ascii ''a'')
                         (example_options\<lparr> opt_size := Some 3 \<rparr>)))
                 (ascii ''b'') example_options) = Inl PromiseNeverSettles"
proof
  fix ev :: env
  have p: "validateMetadataPath (ascii ''a'') False = Inr (ascii ''a'')"
    "validateMetadataPath (ascii ''b'') True = Inr (ascii ''b/'')"
    by (simp_all add: validateMetadataPath_def ascii_def replace_backslashes_def
        matches_trailing_slash_def is_ascii_letter_def)
  have q: "queue ZipFile_new = Some Resolved" "outputStreamCursor ZipFile_new = 0"
    by (simp_all add: ZipFile_new_def)
  have l: "(3::int) \<noteq> chunks_length [[1, 2]]" by (simp add: chunks_length_def)
  have c: "default_true (opt_compress (example_options\<lparr> opt_size := Some 3 \<rparr>)) = False"
    "default_false (opt_forceZip64Format (example_options\<lparr> opt_size := Some 3 \<rparr>)) = False"
    by (simp_all add: example_options_def no_options_def default_true_def default_false_def)
  have e: "FileEntry (now ev) (ascii ''a'')
     (example_options\<lparr> opt_size := Some 3, opt_compress := Some False,
        opt_forceZip64Format := Some False \<rparr>)
     = Inr \<lparr>
     utf8FileName = [0x61], lastModFileTime = 0, lastModFileDate = 0x5621,
     externalFileAttributes = 0x81b40000, crc32 = None,
     uncompressedSize = Some 3, compressedSize = None, compress = False,
     crcAndFileSizeKnown = False, forceZip64Format = False, fileComment = [],
     relativeOffsetOfLocalHeader = None \<rparr>"
    by (simp add: FileEntry_def Entry_def Let_def ascii_def example_options_def no_options_def
        example_date_def dateToDosDateTime_def)
  have "addReadStream ev ZipFile_new [[1, 2]] (ascii ''a'')
            (example_options\<lparr> opt_size := Some 3 \<rparr>)
        = addEntry ev ZipFile_new (Inr (\<lparr>
     utf8FileName = [0x61], lastModFileTime = 0, lastModFileDate = 0x5621,
     externalFileAttributes = 0x81b40000, crc32 = None,
     uncompressedSize = Some 3, compressedSize = None, compress = False,
     crcAndFileSizeKnown = False, forceZip64Format = False, fileComment = [],
     relativeOffsetOfLocalHeader = None \<rparr>, WriteEntryStream [[1, 2]]))"
    unfolding addReadStream_def p c by (simp add: e)
  also have "\<dots> = (ZipFile_new\<lparr> queue := Some Pending,
                           outputStreamCursor := 31,
                           pushed := [80, 75, 3, 4, 20, 0, 8, 8, 0, 0, 0, 0, 33, 86,
                                      0, 0, 0, 0, 0, 0, 0, 0, 0, 0, 0, 0, 1, 0, 0, 0, 97, 1, 2],
                           uncaughtException := Some UnexpectedNumberOfBytes \<rparr>,
             Inl PromiseNeverSettles)"
    by (simp add: addEntry_stream_mismatch [where header = "[80, 75, 3, 4, 20, 0, 8, 8, 0, 0,
          0, 0, 33, 86, 0, 0, 0, 0, 0, 0, 0, 0, 0, 0, 0, 0, 1, 0, 0, 0, 97]" and u = 3]
        q l example_stream_header writeBuffer_def ZipFile_new_def)
  finally have r: "addReadStream ev ZipFile_new [[1, 2]] (ascii ''a'')
            (example_options\<lparr> opt_size := Some 3 \<rparr>)
          = (ZipFile_new\<lparr> queue := Some Pending,
                           outputStreamCursor := 31,
                           pushed := [80, 75, 3, 4, 20, 0, 8, 8, 0, 0, 0, 0, 33, 86,
                                      0, 0, 0, 0, 0, 0, 0, 0, 0, 0, 0, 0, 1, 0, 0, 0, 97, 1, 2],
                           uncaughtException := Some UnexpectedNumberOfBytes \<rparr>,
             Inl PromiseNeverSettles)" .
  show "addReadStream ev ZipFile_new [[1, 2]] (ascii ''a'')
            (example_options\<lparr> opt_size := Some 3 \<rparr>)
          = (ZipFile_new\<lparr> queue := Some Pending,
                           outputStreamCursor := 31,
                           pushed := [80, 75, 3, 4, 20, 0, 8, 8, 0, 0, 0, 0, 33, 86,
                                      0, 0, 0, 0, 0, 0, 0, 0, 0, 0, 0, 0, 1, 0, 0, 0, 97, 1, 2],
                           uncaughtException := Some UnexpectedNumberOfBytes \<rparr>,
             Inl PromiseNeverSettles)
        \<and> \<not> destroyed (fst (addReadStream ev ZipFile_new [[1, 2]] (ascii ''a'')
                               (example_options\<lparr> opt_size := Some 3 \<rparr>)))
        \<and> snd (addEmptyDirectory ev
                 (fst (addReadStream ev ZipFile_new [[1, 2]] (ascii ''a'')
                         (example_options\<lparr> opt_size := Some 3 \<rparr>)))
                 (ascii ''b'') example_options) = Inl PromiseNeverSettles"
    unfolding r
    by (simp add: ZipFile_new_def addEmptyDirectory_def p addEntry_def)
qed

section \<open>Finalizing: properties\<close>








lemma example_archive_reached:
  "addEmptyDirectory ev ZipFile_new (ascii ''a'') example_options
     = (example_archive\<lparr> entries := [] \<rparr>, Inr example_directory)"
  by (simp add: addEmptyDirectory_def validateMetadataPath_def ascii_def
      replace_backslashes_def matches_trailing_slash_def is_ascii_letter_def
      DirectoryEntry_def Entry_def example_options_def no_options_def
      example_date_def dateToDosDateTime_def Let_def
      addEntry_def entryTask_def ZipFile_new_def getLocalFileHeader_def getDataDescriptor_def
      writeBuffer_def writeUInt16LE_def writeUInt32LE_def
      generalPurposeBitFlag_def compression_method_def useZip64Format_def js_gt_def
      example_archive_def example_directory_def)



lemma new_archive_end:
  "index_end ZipFile_new no_options =
     (finalized_archive,
      Inr \<lparr> rec_offsetOfStartOfCentralDirectory = 0, rec_forceZip64Format = False,
            rec_comment = [], rec_outputStreamCursor = 0, rec_entriesCount = 0 \<rparr>)"
  by (simp add: index_end_def addCentralDirectoryRecord_def archive_comment_def no_options_def
      Let_def writeBuffer_def ZipFile_end_def ZipFile_new_def finalized_archive_def
      getEndOfCentralDirectoryRecord_def needZip64Format_def
      writeUInt16LE_def writeUInt32LE_def)



text \<open>
  C8, as the code has it.  Once the queue is deleted, which \<open>end\<close> does when the central
  directory task has resolved, every add operation and every further finalize call fails and
  leaves the archive as it is, so nothing more is pushed to the output.  The error is the one
  for a finalized archive whenever the call gets as far as \<open>addEntry\<close>: for
  \<open>addCentralDirectoryRecord\<close> and \<open>end\<close> always, for the add operations when the checks made
  before \<open>addEntry\<close> pass (the path, for \<open>addBuffer\<close> the length of the buffer, for
  \<open>addReadStream\<close> the construction of the entry); otherwise it is the error of that check.
\<close>

theorem finalized_archive_refuses:
  "(index_end self0 opts0 = (self, Inr r) \<longrightarrow> queue self = None)
   \<and> queue (ZipFile_end self0) = None
   \<and> (queue self = None \<longrightarrow>
        addCentralDirectoryRecord self es opts = (self, Inl Finalized)
        \<and> index_end self opts = (self, Inl Finalized)
        \<and> fst (addFile ev self realPath p opts) = self
        \<and> isl (snd (addFile ev self realPath p opts))
        \<and> fst (addReadStream ev self readStream p opts) = self
        \<and> isl (snd (addReadStream ev self readStream p opts))
        \<and> fst (addBuffer ev self buf p opts) = self
        \<and> isl (snd (addBuffer ev self buf p opts))
        \<and> fst (addEmptyDirectory ev self p opts) = self
        \<and> isl (snd (addEmptyDirectory ev self p opts))
        \<and> (\<not> isl (validateMetadataPath p False) \<longrightarrow>
             snd (addFile ev self realPath p opts) = Inl Finalized
             \<and> (int (length buf) \<le> 0x3fffffff \<longrightarrow>
                  snd (addBuffer ev self buf p opts) = Inl Finalized)
             \<and> (int (length (utf8_encode (projr (validateMetadataPath p False)))) \<le> 0xffff
                \<and> (\<forall>m. opt_mode opts = Some m \<longrightarrow> (m AND 0xffff) = m)
                \<and> (\<forall>c. opt_fileComment opts = Some c \<longrightarrow>
                       int (length (file_comment_bytes c)) \<le> 0xffff) \<longrightarrow>
                  snd (addReadStream ev self readStream p opts) = Inl Finalized))
        \<and> (\<not> isl (validateMetadataPath p True) \<longrightarrow>
             snd (addEmptyDirectory ev self p opts) = Inl Finalized))"
proof (intro conjI impI)
  assume "index_end self0 opts0 = (self, Inr r)"
  then show "queue self = None"
    by (auto simp: index_end_def ZipFile_end_def split: prod.splits sum.splits)
next
  show "queue (ZipFile_end self0) = None" by (simp add: ZipFile_end_def)
next
  assume q: "queue self = None"
  then show "addCentralDirectoryRecord self es opts = (self, Inl Finalized)"
    by (simp add: addCentralDirectoryRecord_def)
  from q show "index_end self opts = (self, Inl Finalized)"
    by (simp add: index_end_def addCentralDirectoryRecord_def)
  from q have a: "addEntry ev self cb = (self, Inl Finalized)" for cb
    by (simp add: addEntry_def)
  show "fst (addFile ev self realPath p opts) = self"
    and "isl (snd (addFile ev self realPath p opts))"
    and "fst (addReadStream ev self readStream p opts) = self"
    and "isl (snd (addReadStream ev self readStream p opts))"
    and "fst (addBuffer ev self buf p opts) = self"
    and "isl (snd (addBuffer ev self buf p opts))"
    and "fst (addEmptyDirectory ev self p opts) = self"
    and "isl (snd (addEmptyDirectory ev self p opts))"
    by (simp_all add: addFile_def addReadStream_def addBuffer_def addEmptyDirectory_def a Let_def
        split: sum.splits)
  {
    assume v: "\<not> isl (validateMetadataPath p False)"
    then obtain mp where mp: "validateMetadataPath p False = Inr mp"
      by (cases "validateMetadataPath p False") auto
    show "snd (addFile ev self realPath p opts) = Inl Finalized"
      by (simp add: addFile_def mp a)
    {
      assume "int (length buf) \<le> 0x3fffffff"
      then show "snd (addBuffer ev self buf p opts) = Inl Finalized"
        by (simp add: addBuffer_def mp a Let_def)
    }
    {
      assume "int (length (utf8_encode (projr (validateMetadataPath p False)))) \<le> 0xffff
                \<and> (\<forall>m. opt_mode opts = Some m \<longrightarrow> (m AND 0xffff) = m)
                \<and> (\<forall>c. opt_fileComment opts = Some c \<longrightarrow>
                       int (length (file_comment_bytes c)) \<le> 0xffff)"
      then have "\<not> isl (FileEntry (now ev) mp
                  (opts\<lparr> opt_compress := Some (default_true (opt_compress opts)),
                         opt_forceZip64Format :=
                           Some (default_false (opt_forceZip64Format opts)) \<rparr>))"
        by (auto simp: FileEntry_isl mp)
      then show "snd (addReadStream ev self readStream p opts) = Inl Finalized"
        by (auto simp: addReadStream_def mp a split: sum.splits)
    }
  }
  {
    assume "\<not> isl (validateMetadataPath p True)"
    then obtain mp where mp: "validateMetadataPath p True = Inr mp"
      by (cases "validateMetadataPath p True") auto
    show "snd (addEmptyDirectory ev self p opts) = Inl Finalized"
      by (simp add: addEmptyDirectory_def mp a)
  }
qed

text \<open>
  After \<open>end\<close> on a new archive, \<open>addEmptyDirectory\<close> with the empty path fails with the error
  of the path check, which is no state error.
\<close>

theorem finalized_validation_counterexample:
  "\<forall>ev. fst (index_end ZipFile_new no_options) = finalized_archive
        \<and> \<not> isl (snd (index_end ZipFile_new no_options))
        \<and> addEmptyDirectory ev finalized_archive [] no_options
            = (finalized_archive, Inl EmptyMetadataPath)"
  using new_archive_end
  by (simp add: addEmptyDirectory_def validateMetadataPath_def replace_backslashes_def)

text \<open>
  After \<open>end\<close> on a new archive: adding the directory \<open>a\<close>, adding a buffer of one byte as
  \<open>a\<close>, and \<open>end\<close> again all fail with the error for a finalized archive, and the archive
  stays as it is.
\<close>

theorem finalized_archive_refuses_witness:
  "\<forall>ev. index_end ZipFile_new no_options =
          (finalized_archive,
           Inr \<lparr> rec_offsetOfStartOfCentralDirectory = 0, rec_forceZip64Format = False,
                 rec_comment = [], rec_outputStreamCursor = 0, rec_entriesCount = 0 \<rparr>)
        \<and> queue finalized_archive = None
        \<and> addEmptyDirectory ev finalized_archive (ascii ''a'') no_options
            = (finalized_archive, Inl Finalized)
        \<and> addBuffer ev finalized_archive [1] (ascii ''a'') no_options
            = (finalized_archive, Inl Finalized)
        \<and> index_end finalized_archive no_options = (finalized_archive, Inl Finalized)"
proof
  fix ev :: env
  note e = new_archive_end
  have p: "\<not> isl (validateMetadataPath (ascii ''a'') False)"
    "\<not> isl (validateMetadataPath (ascii ''a'') True)"
    by (simp_all add: validateMetadataPath_def ascii_def replace_backslashes_def
        matches_trailing_slash_def is_ascii_letter_def)
  note t = finalized_archive_refuses [where ?self0.0 = ZipFile_new and ?opts0.0 = no_options
      and self = finalized_archive and ev = ev and p = "ascii ''a''" and opts = no_options
      and buf = "[1]"
      and r = "\<lparr> rec_offsetOfStartOfCentralDirectory = 0, rec_forceZip64Format = False,
                 rec_comment = [], rec_outputStreamCursor = 0, rec_entriesCount = 0 \<rparr>"]
  from t e have q: "queue finalized_archive = None" by blast
  have l: "int (length [1 :: 8 word]) \<le> 0x3fffffff" by simp
  from t q p l have "fst (addEmptyDirectory ev finalized_archive (ascii ''a'') no_options)
        = finalized_archive"
    and "snd (addEmptyDirectory ev finalized_archive (ascii ''a'') no_options) = Inl Finalized"
    and "fst (addBuffer ev finalized_archive [1] (ascii ''a'') no_options) = finalized_archive"
    and "snd (addBuffer ev finalized_archive [1] (ascii ''a'') no_options) = Inl Finalized"
    and i: "index_end finalized_archive no_options = (finalized_archive, Inl Finalized)"
    by blast+
  then have "addEmptyDirectory ev finalized_archive (ascii ''a'') no_options
            = (finalized_archive, Inl Finalized)"
    and "addBuffer ev finalized_archive [1] (ascii ''a'') no_options
            = (finalized_archive, Inl Finalized)"
    by (simp_all add: prod_eq_iff)
  with e q i show "index_end ZipFile_new no_options =
          (finalized_archive,
           Inr \<lparr> rec_offsetOfStartOfCentralDirectory = 0, rec_forceZip64Format = False,
                 rec_comment = [], rec_outputStreamCursor = 0, rec_entriesCount = 0 \<rparr>)
        \<and> queue finalized_archive = None
        \<and> addEmptyDirectory ev finalized_archive (ascii ''a'') no_options
            = (finalized_archive, Inl Finalized)
        \<and> addBuffer ev finalized_archive [1] (ascii ''a'') no_options
            = (finalized_archive, Inl Finalized)
        \<and> index_end finalized_archive no_options = (finalized_archive, Inl Finalized)"
    by blast
qed

section \<open>Ordering: properties\<close>






lemma failTask_simps [simp]:
  "pushed (failTask s err) = pushed s"
  "queue (failTask s err)
     = Some (if err = PromiseNeverSettles then Pending else Rejected err)"
  by (simp_all add: failTask_def)

























end
